theory Spec2Isabelle
  imports Complex_Main
begin

section \<open>Lead generation: the request pipeline and the workflow\<close>

text \<open>
  A shallow embedding of the lead-generation module: the API client
  (\<^verbatim>\<open>utils/api-client.js\<close>: rate limiting and the retry loop), the bulk
  enrichment call of the enrichment module, and the workflow
  \<^verbatim>\<open>generateLeads\<close> of \<^verbatim>\<open>workflows/lead-workflow.js\<close>.

  Everything outside the module is an oracle over an abstract world \<open>'w\<close>: the clock
  (\<^verbatim>\<open>Date.now()\<close>), the timer (\<^verbatim>\<open>setTimeout\<close>), the HTTP library
  (\<^verbatim>\<open>axios\<close>) and, for the workflow, the four module singletons it imports. An
  oracle takes the world and returns the next one, so that a collaborator may answer
  differently at every call. A rejected promise is the left injection of a sum. Each
  function also returns the list of the external calls it made, in order. The
  \<^verbatim>\<open>logger\<close> calls only print and are left out.
\<close>

subsection \<open>Thrown values\<close>

record http_response =
  status :: int

text \<open>A JavaScript \<^verbatim>\<open>Error\<close>; axios adds \<^verbatim>\<open>response\<close> when the server answered.\<close>

record js_error =
  message :: string
  response :: "http_response option"

text \<open>\<^verbatim>\<open>new Error(msg)\<close>.\<close>

definition new_Error :: "string \<Rightarrow> js_error" where
  "new_Error msg = \<lparr>message = msg, response = None\<rparr>"

subsection \<open>The API client\<close>

record 'd request_config =
  cfg_method :: string
  cfg_url :: string
  cfg_headers :: "(string \<times> string) list"
  cfg_params :: "'d option"
  cfg_data :: "'d option"

record api_client =
  baseURL :: string
  apiKey :: string
  rateLimit :: int
  lastRequestTime :: int

text \<open>
  \<open>date_now\<close> reads the clock in milliseconds, \<open>set_timeout d\<close> is the world after
  \<^verbatim>\<open>await new Promise(resolve => setTimeout(resolve, d))\<close>, and \<open>axios\<close> is one
  physical call, returning \<^verbatim>\<open>response.data\<close> or the error it rejects with.
\<close>

record ('w, 'd, 'r) platform =
  date_now :: "'w \<Rightarrow> int"
  set_timeout :: "rat \<Rightarrow> 'w \<Rightarrow> 'w"
  axios :: "'d request_config \<Rightarrow> 'w \<Rightarrow> (js_error + 'r) \<times> 'w"

text \<open>
  \<^verbatim>\<open>_rateLimit()\<close>. The division is the one of the rationals, which agrees with the
  program's for a rate limit other than 0 (there the program's interval is infinite).
\<close>

definition APIClient_rateLimit ::
  "('w, 'd, 'r) platform \<Rightarrow> api_client \<Rightarrow> 'w \<Rightarrow> api_client \<times> 'w" where
  "APIClient_rateLimit p this w =
     (let now = date_now p w;
          timeSinceLastRequest = now - lastRequestTime this;
          minInterval = (60 * 1000) / rat_of_int (rateLimit this);
          w' = (if rat_of_int timeSinceLastRequest < minInterval
                then set_timeout p (minInterval - rat_of_int timeSinceLastRequest) w
                else w)
      in (this\<lparr>lastRequestTime := date_now p w'\<rparr>, w'))"

text \<open>
  What \<^verbatim>\<open>request\<close> does, in order: the call of \<^verbatim>\<open>_rateLimit\<close>, a physical
  call (with the attempt index and the error it rejected with, if any), and the wait
  before a retry (in milliseconds).
\<close>

datatype event =
    Acquire
  | PhysicalCall nat "js_error option"
  | BackoffWait nat

definition is_client_error :: "js_error \<Rightarrow> bool" where
  "is_client_error error =
     (case response error of
        None \<Rightarrow> False
      | Some r \<Rightarrow> 400 \<le> status r \<and> status r < 500)"

text \<open>
  The \<^verbatim>\<open>for\<close> loop of \<^verbatim>\<open>request\<close>. The left injection is the thrown value:
  \<open>None\<close> is \<^verbatim>\<open>undefined\<close>, thrown as \<^verbatim>\<open>lastError\<close> when the loop never ran.
\<close>

function request_loop ::
  "('w, 'd, 'r) platform \<Rightarrow> 'd request_config \<Rightarrow> nat \<Rightarrow> nat \<Rightarrow> js_error option \<Rightarrow> 'w
     \<Rightarrow> (js_error option + 'r) \<times> 'w \<times> event list" where
  "request_loop p config retries attempt lastError w =
     (if attempt < retries then
        (case axios p config w of
           (Inr response_data, w1) \<Rightarrow> (Inr response_data, w1, [PhysicalCall attempt None])
         | (Inl error, w1) \<Rightarrow>
             if is_client_error error
             then (Inl (Some error), w1, [PhysicalCall attempt (Some error)])
             else if attempt < retries - 1 then
               (let delay = 2 ^ attempt * 1000;
                    w2 = set_timeout p (of_nat delay) w1;
                    (res, w3, evs) = request_loop p config retries (attempt + 1) (Some error) w2
                in (res, w3, PhysicalCall attempt (Some error) # BackoffWait delay # evs))
             else
               (let (res, w3, evs) = request_loop p config retries (attempt + 1) (Some error) w1
                in (res, w3, PhysicalCall attempt (Some error) # evs)))
      else (Inl lastError, w, []))"
  by pat_completeness auto
termination
  by (relation "measure (\<lambda>(p, config, retries, attempt, lastError, w). retries - attempt)") auto

declare request_loop.simps [simp del]

definition APIClient_request ::
  "('w, 'd, 'r) platform \<Rightarrow> api_client \<Rightarrow> string \<Rightarrow> string \<Rightarrow> 'd option \<Rightarrow> nat \<Rightarrow> 'w
     \<Rightarrow> (js_error option + 'r) \<times> api_client \<times> 'w \<times> event list" where
  "APIClient_request p this method endpoint data retries w =
     (let (this1, w1) = APIClient_rateLimit p this w;
          config = \<lparr>cfg_method = method,
                    cfg_url = baseURL this1 @ endpoint,
                    cfg_headers = [(''Content-Type'', ''application/json''),
                                   (''Cache-Control'', ''no-cache''),
                                   (''X-Api-Key'', apiKey this1)],
                    cfg_params = (if method = ''GET'' then data else None),
                    cfg_data = (if method = ''GET'' then None else data)\<rparr>;
          (res, w2, evs) = request_loop p config retries 0 None w1
      in (res, this1, w2, Acquire # evs))"

definition APIClient_post ::
  "('w, 'd, 'r) platform \<Rightarrow> api_client \<Rightarrow> string \<Rightarrow> 'd option \<Rightarrow> 'w
     \<Rightarrow> (js_error option + 'r) \<times> api_client \<times> 'w \<times> event list" where
  "APIClient_post p this endpoint data w = APIClient_request p this ''POST'' endpoint data 3 w"

subsection \<open>Reading the event list\<close>

definition physical_calls :: "event list \<Rightarrow> event list" where
  "physical_calls evs = filter (\<lambda>e. case e of PhysicalCall _ _ \<Rightarrow> True | _ \<Rightarrow> False) evs"

text \<open>Each event with the event just before it.\<close>

fun with_previous :: "'a option \<Rightarrow> 'a list \<Rightarrow> ('a option \<times> 'a) list" where
  "with_previous prev [] = []"
| "with_previous prev (x # xs) = (prev, x) # with_previous (Some x) xs"

subsection \<open>Batches of ten\<close>

text \<open>\<^verbatim>\<open>xs.slice(a, b)\<close> for \<open>0 \<le> a \<le> b\<close>.\<close>

definition slice :: "'a list \<Rightarrow> nat \<Rightarrow> nat \<Rightarrow> 'a list" where
  "slice xs a b = take (b - a) (drop a xs)"

text \<open>
  The batches that the loop
  \<^verbatim>\<open>for (let i = 0; i < leadsToProcess.length; i += 10)\<close> cuts with
  \<^verbatim>\<open>leadsToProcess.slice(i, i + 10)\<close>, from index \<open>i\<close> on.
\<close>

function batches :: "'a list \<Rightarrow> nat \<Rightarrow> 'a list list" where
  "batches xs i =
     (if i < length xs then slice xs i (i + 10) # batches xs (i + 10) else [])"
  by pat_completeness auto
termination
  by (relation "measure (\<lambda>(xs, i). length xs - i)") auto

declare batches.simps [simp del]

subsection \<open>Records of the remote API\<close>

text \<open>
  A field that may be missing is an option; \<open>None\<close> is \<^verbatim>\<open>undefined\<close>.
\<close>

record organization =
  name :: "string option"
  website_url :: "string option"

record lead =
  first_name :: "string option"
  last_name :: "string option"
  email :: "string option"
  title :: "string option"
  organization :: "organization option"
  organization_name :: "string option"
  linkedin_url :: "string option"

text \<open>An entry of \<^verbatim>\<open>response.matches\<close>.\<close>

record match =
  person :: "lead option"

text \<open>\<^verbatim>\<open>response.contact\<close>; \<open>contact_id\<close> is its \<^verbatim>\<open>id\<close>.\<close>

record contact =
  contact_id :: "string option"

text \<open>
  The object of \<^verbatim>\<open>batchData\<close>: \<^verbatim>\<open>first_name\<close>, \<^verbatim>\<open>last_name\<close>,
  \<^verbatim>\<open>email\<close>, \<^verbatim>\<open>organization_name\<close>, \<^verbatim>\<open>linkedin_url\<close>.
\<close>

datatype person_details =
  PersonDetails "string option" "string option" "string option" "string option" "string option"

text \<open>
  The object of \<^verbatim>\<open>contactData\<close>: \<^verbatim>\<open>first_name\<close>, \<^verbatim>\<open>last_name\<close>,
  \<^verbatim>\<open>email\<close>, \<^verbatim>\<open>title\<close>, \<^verbatim>\<open>organization_name\<close>, \<^verbatim>\<open>website_url\<close>,
  \<^verbatim>\<open>label_names\<close>.
\<close>

datatype contact_data =
  ContactData "string option" "string option" "string option" "string option"
    "string option" "string option" "string list option"

text \<open>The \<^verbatim>\<open>{success, data, error}\<close> object every module function returns.\<close>

record 'a api_result =
  success :: bool
  data :: 'a
  error :: "string option"

subsection \<open>The enrichment module: \<^verbatim>\<open>enrichPeopleBulk\<close>\<close>

record bulk_match_params =
  details :: "person_details list"
  reveal_personal_emails :: bool
  reveal_phone_number :: bool

record bulk_match_response =
  matches :: "match list option"

text \<open>The \<^verbatim>\<open>try\<close> block: the left injection is what it throws.\<close>

definition enrichPeopleBulk_try ::
  "('w, bulk_match_params, bulk_match_response) platform \<Rightarrow> api_client
     \<Rightarrow> person_details list \<Rightarrow> bool \<Rightarrow> bool \<Rightarrow> 'w
     \<Rightarrow> (js_error option + match list api_result) \<times> api_client \<times> 'w \<times> event list" where
  "enrichPeopleBulk_try p apiClient peopleData revealPersonalEmails revealPhoneNumber w =
     (if length peopleData > 10
      then (Inl (Some (new_Error ''Bulk enrichment supports maximum 10 people per request'')),
            apiClient, w, [])
      else
        (let params = \<lparr>details = peopleData,
                        reveal_personal_emails = revealPersonalEmails,
                        reveal_phone_number = revealPhoneNumber\<rparr>
         in case APIClient_post p apiClient ''/people/bulk_match'' (Some params) w of
              (Inl thrown, apiClient', w', evs) \<Rightarrow> (Inl thrown, apiClient', w', evs)
            | (Inr response_data, apiClient', w', evs) \<Rightarrow>
                (Inr \<lparr>success = True,
                      data = (case matches response_data of None \<Rightarrow> [] | Some ms \<Rightarrow> ms),
                      error = None\<rparr>,
                 apiClient', w', evs)))"

text \<open>
  The function with its \<^verbatim>\<open>catch\<close>. Reading \<^verbatim>\<open>error.message\<close> of
  \<^verbatim>\<open>undefined\<close> throws a \<^verbatim>\<open>TypeError\<close> out of the handler.
\<close>

definition enrichPeopleBulk ::
  "('w, bulk_match_params, bulk_match_response) platform \<Rightarrow> api_client
     \<Rightarrow> person_details list \<Rightarrow> bool \<Rightarrow> bool \<Rightarrow> 'w
     \<Rightarrow> (js_error + match list api_result) \<times> api_client \<times> 'w \<times> event list" where
  "enrichPeopleBulk p apiClient peopleData revealPersonalEmails revealPhoneNumber w =
     (case enrichPeopleBulk_try p apiClient peopleData revealPersonalEmails revealPhoneNumber w of
        (Inr result, apiClient', w', evs) \<Rightarrow> (Inr result, apiClient', w', evs)
      | (Inl (Some err), apiClient', w', evs) \<Rightarrow>
          (Inr \<lparr>success = False, data = [], error = Some (message err)\<rparr>, apiClient', w', evs)
      | (Inl None, apiClient', w', evs) \<Rightarrow>
          (Inl (new_Error ''Cannot read properties of undefined (reading 'message')''),
           apiClient', w', evs))"

subsection \<open>The workflow: \<^verbatim>\<open>generateLeads\<close>\<close>

record 'f workflow_config =
  searchFilters :: 'f
  enrichData :: bool
  addToLists :: "string list option"
  sequenceId :: "string option"
  emailAccountId :: "string option"
  maxResults :: "int option"

text \<open>\<^verbatim>\<open>{...config.searchFilters, per_page: n}\<close>.\<close>

datatype 'f search_params = SearchParams 'f int

text \<open>
  The module singletons \<^verbatim>\<open>search\<close>, \<^verbatim>\<open>enrichment\<close>, \<^verbatim>\<open>contacts\<close> and
  \<^verbatim>\<open>outreach\<close>, as far as the workflow calls them. A call returns its result object
  or throws an \<^verbatim>\<open>Error\<close>.
\<close>

record ('f, 'w) collaborators =
  search_searchPeople ::
    "'f search_params \<Rightarrow> 'w \<Rightarrow> (js_error + lead list api_result) \<times> 'w"
  enrichment_enrichPeopleBulk ::
    "person_details list \<Rightarrow> 'w \<Rightarrow> (js_error + match list api_result) \<times> 'w"
  contacts_createContact ::
    "contact_data \<Rightarrow> 'w \<Rightarrow> (js_error + contact option api_result) \<times> 'w"
  outreach_addContactsToSequence ::
    "string \<Rightarrow> string option list \<Rightarrow> string \<Rightarrow> 'w \<Rightarrow> (js_error + unit api_result) \<times> 'w"

text \<open>A call of a collaborator, with its arguments and what came back.\<close>

datatype 'f call =
    SearchCall "'f search_params" "js_error + lead list api_result"
  | EnrichCall "person_details list" "js_error + match list api_result"
  | CreateCall contact_data "js_error + contact option api_result"
  | SequenceCall string "string option list" string "js_error + unit api_result"

text \<open>
  An entry of \<^verbatim>\<open>results.errors\<close>: \<^verbatim>\<open>{lead, error}\<close> from the create loop,
  \<^verbatim>\<open>{step, error}\<close> from the sequence step.
\<close>

datatype error_entry =
    LeadError string "string option"
  | StepError string "string option"

text \<open>
  The returned object. \<open>wf_error\<close> is its key \<^verbatim>\<open>error\<close>, which only the
  \<^verbatim>\<open>catch\<close> adds.
\<close>

record workflow_result =
  searched :: nat
  enriched :: nat
  created :: nat
  addedToSequence :: nat
  errors :: "error_entry list"
  wf_error :: "string option"

definition truthy :: "string option \<Rightarrow> bool" where
  "truthy s = (case s of None \<Rightarrow> False | Some v \<Rightarrow> v \<noteq> [])"

definition template_str :: "string option \<Rightarrow> string" where
  "template_str s = (case s of None \<Rightarrow> ''undefined'' | Some v \<Rightarrow> v)"

definition batch_item :: "lead \<Rightarrow> person_details" where
  "batch_item lead =
     PersonDetails (first_name lead) (last_name lead) (email lead)
       (case organization lead of None \<Rightarrow> None | Some org \<Rightarrow> name org)
       (linkedin_url lead)"

text \<open>\<^verbatim>\<open>matches.map(m => m.person).filter(Boolean)\<close>.\<close>

definition persons :: "match list \<Rightarrow> lead list" where
  "persons ms = List.map_filter person ms"

function enrich_loop ::
  "('f, 'w) collaborators \<Rightarrow> lead list \<Rightarrow> nat \<Rightarrow> lead list \<Rightarrow> 'w
     \<Rightarrow> (js_error + lead list) \<times> 'w \<times> 'f call list" where
  "enrich_loop c leadsToProcess i enrichedLeads w =
     (if i < length leadsToProcess then
        (let batch = slice leadsToProcess i (i + 10);
             batchData = map batch_item batch
         in case enrichment_enrichPeopleBulk c batchData w of
              (Inl thrown, w1) \<Rightarrow> (Inl thrown, w1, [EnrichCall batchData (Inl thrown)])
            | (Inr enrichResult, w1) \<Rightarrow>
                (let enrichedLeads' =
                       (if success enrichResult
                        then enrichedLeads @ persons (data enrichResult)
                        else enrichedLeads);
                     (res, w2, calls) = enrich_loop c leadsToProcess (i + 10) enrichedLeads' w1
                 in (res, w2, EnrichCall batchData (Inr enrichResult) # calls)))
      else (Inr enrichedLeads, w, []))"
  by pat_completeness auto
termination
  by (relation "measure (\<lambda>(c, leadsToProcess, i, enrichedLeads, w). length leadsToProcess - i)")
    auto

declare enrich_loop.simps [simp del]

definition contactData_of :: "'f workflow_config \<Rightarrow> lead \<Rightarrow> contact_data" where
  "contactData_of config lead =
     ContactData (first_name lead) (last_name lead) (email lead) (title lead)
       (let n = (case organization lead of None \<Rightarrow> None | Some org \<Rightarrow> name org)
        in if truthy n then n else organization_name lead)
       (case organization lead of None \<Rightarrow> None | Some org \<Rightarrow> website_url org)
       (addToLists config)"

text \<open>
  The \<^verbatim>\<open>for (const lead of leadsToProcess)\<close> loop. The first component is the
  error a call threw, which ends the loop.
\<close>

fun create_loop ::
  "('f, 'w) collaborators \<Rightarrow> 'f workflow_config \<Rightarrow> lead list \<Rightarrow> contact list
     \<Rightarrow> workflow_result \<Rightarrow> 'w
     \<Rightarrow> js_error option \<times> contact list \<times> workflow_result \<times> 'w \<times> 'f call list" where
  "create_loop c config [] createdContacts results w = (None, createdContacts, results, w, [])"
| "create_loop c config (lead # rest) createdContacts results w =
     (let contactData = contactData_of config lead
      in case contacts_createContact c contactData w of
           (Inl thrown, w1) \<Rightarrow>
             (Some thrown, createdContacts, results, w1, [CreateCall contactData (Inl thrown)])
         | (Inr createResult, w1) \<Rightarrow>
             (let (createdContacts', results') =
                    (case (success createResult, data createResult) of
                       (True, Some contact) \<Rightarrow>
                         (createdContacts @ [contact],
                          results\<lparr>created := created results + 1\<rparr>)
                     | _ \<Rightarrow>
                         (createdContacts,
                          results\<lparr>errors := errors results @
                            [LeadError
                               (template_str (first_name lead) @ '' '' @
                                template_str (last_name lead))
                               (error createResult)]\<rparr>));
                  (thrown, createdContacts'', results'', w2, calls) =
                    create_loop c config rest createdContacts' results' w1
              in (thrown, createdContacts'', results'', w2,
                  CreateCall contactData (Inr createResult) # calls)))"

text \<open>Step 4.\<close>

definition add_to_sequence ::
  "('f, 'w) collaborators \<Rightarrow> 'f workflow_config \<Rightarrow> contact list \<Rightarrow> workflow_result \<Rightarrow> 'w
     \<Rightarrow> js_error option \<times> workflow_result \<times> 'w \<times> 'f call list" where
  "add_to_sequence c config createdContacts results w =
     (case (sequenceId config, emailAccountId config) of
        (Some sid, Some eid) \<Rightarrow>
          if sid \<noteq> [] \<and> eid \<noteq> [] \<and> length createdContacts > 0 then
            (let contactIds = map contact_id createdContacts
             in case outreach_addContactsToSequence c sid contactIds eid w of
                  (Inl thrown, w1) \<Rightarrow>
                    (Some thrown, results, w1, [SequenceCall sid contactIds eid (Inl thrown)])
                | (Inr sequenceResult, w1) \<Rightarrow>
                    (None,
                     (if success sequenceResult
                      then results\<lparr>addedToSequence := length contactIds\<rparr>
                      else results\<lparr>errors := errors results @
                             [StepError ''sequence'' (error sequenceResult)]\<rparr>),
                     w1, [SequenceCall sid contactIds eid (Inr sequenceResult)]))
          else (None, results, w, [])
      | _ \<Rightarrow> (None, results, w, []))"

text \<open>Step 2, when \<^verbatim>\<open>config.enrichData\<close> holds.\<close>

definition enrich_step ::
  "('f, 'w) collaborators \<Rightarrow> lead list \<Rightarrow> workflow_result \<Rightarrow> 'w
     \<Rightarrow> js_error option \<times> lead list \<times> workflow_result \<times> 'w \<times> 'f call list" where
  "enrich_step c leadsToProcess results w =
     (case enrich_loop c leadsToProcess 0 [] w of
        (Inl thrown, w1, calls) \<Rightarrow> (Some thrown, leadsToProcess, results, w1, calls)
      | (Inr enrichedLeads, w1, calls) \<Rightarrow>
          (None, enrichedLeads, results\<lparr>enriched := length enrichedLeads\<rparr>, w1, calls))"

text \<open>
  The \<^verbatim>\<open>try\<close> block, from the \<^verbatim>\<open>results\<close> object it is given. The first
  component is the error that left the block, if one did; the second is \<^verbatim>\<open>results\<close>
  as it stands then.
\<close>

definition generateLeads_try ::
  "('f, 'w) collaborators \<Rightarrow> 'f workflow_config \<Rightarrow> workflow_result \<Rightarrow> 'w
     \<Rightarrow> js_error option \<times> workflow_result \<times> 'w \<times> 'f call list" where
  "generateLeads_try c config results w =
     (let params = SearchParams (searchFilters config)
                     (min (case maxResults config of
                             None \<Rightarrow> 25
                           | Some n \<Rightarrow> if n = 0 then 25 else n) 100)
      in case search_searchPeople c params w of
           (Inl thrown, w1) \<Rightarrow> (Some thrown, results, w1, [SearchCall params (Inl thrown)])
         | (Inr searchResult, w1) \<Rightarrow>
             (let calls1 = [SearchCall params (Inr searchResult)]
              in if \<not> success searchResult \<or> length (data searchResult) = 0
                 then (None, results, w1, calls1)
                 else
                   (let results1 = results\<lparr>searched := length (data searchResult)\<rparr>;
                        (thrown2, leadsToProcess, results2, w2, calls2) =
                          (if enrichData config
                           then enrich_step c (data searchResult) results1 w1
                           else (None, data searchResult, results1, w1, []))
                    in case thrown2 of
                         Some thrown \<Rightarrow> (Some thrown, results2, w2, calls1 @ calls2)
                       | None \<Rightarrow>
                           (let (thrown3, createdContacts, results3, w3, calls3) =
                                  create_loop c config leadsToProcess [] results2 w2
                            in case thrown3 of
                                 Some thrown \<Rightarrow>
                                   (Some thrown, results3, w3, calls1 @ calls2 @ calls3)
                               | None \<Rightarrow>
                                   (let (thrown4, results4, w4, calls4) =
                                          add_to_sequence c config createdContacts results3 w3
                                    in (thrown4, results4, w4,
                                        calls1 @ calls2 @ calls3 @ calls4))))))"

definition initial_results :: workflow_result where
  "initial_results =
     \<lparr>searched = 0, enriched = 0, created = 0, addedToSequence = 0, errors = [],
      wf_error = None\<rparr>"

text \<open>
  \<^verbatim>\<open>generateLeads\<close>: the \<^verbatim>\<open>try\<close> block and its \<^verbatim>\<open>catch\<close>. The left
  injection would be an error thrown to the caller.
\<close>

definition generateLeads ::
  "('f, 'w) collaborators \<Rightarrow> 'f workflow_config \<Rightarrow> 'w
     \<Rightarrow> (js_error + workflow_result) \<times> 'w \<times> 'f call list" where
  "generateLeads c config w =
     (case generateLeads_try c config initial_results w of
        (None, results, w', calls) \<Rightarrow> (Inr results, w', calls)
      | (Some err, results, w', calls) \<Rightarrow>
          (Inr (results\<lparr>wf_error := Some (message err)\<rparr>), w', calls))"

subsection \<open>Reading the call list\<close>

text \<open>The error a call threw.\<close>

fun call_thrown :: "'f call \<Rightarrow> js_error list" where
  "call_thrown (SearchCall _ (Inl e)) = [e]"
| "call_thrown (EnrichCall _ (Inl e)) = [e]"
| "call_thrown (CreateCall _ (Inl e)) = [e]"
| "call_thrown (SequenceCall _ _ _ (Inl e)) = [e]"
| "call_thrown _ = []"

definition thrown_errors :: "'f call list \<Rightarrow> js_error list" where
  "thrown_errors calls = concat (map call_thrown calls)"

text \<open>The leads a successful search returned.\<close>

fun call_found :: "'f call \<Rightarrow> lead list" where
  "call_found (SearchCall _ (Inr r)) = (if success r then data r else [])"
| "call_found _ = []"

definition found_leads :: "'f call list \<Rightarrow> lead list" where
  "found_leads calls = concat (map call_found calls)"

text \<open>The enrichment calls that returned, each with its batch and its result.\<close>

fun call_enrich_return :: "'f call \<Rightarrow> (person_details list \<times> match list api_result) list" where
  "call_enrich_return (EnrichCall batchData (Inr r)) = [(batchData, r)]"
| "call_enrich_return _ = []"

definition enrich_returns :: "'f call list \<Rightarrow> (person_details list \<times> match list api_result) list" where
  "enrich_returns calls = concat (map call_enrich_return calls)"

text \<open>The persons of the chunks whose call returned \<^verbatim>\<open>success: true\<close>.\<close>

definition enriched_persons :: "'f call list \<Rightarrow> lead list" where
  "enriched_persons calls =
     concat (map (\<lambda>(batchData, r). persons (data r))
       (filter (\<lambda>(batchData, r). success r) (enrich_returns calls)))"

text \<open>
  The leads to process when the create loop starts: the persons of the successful chunks
  when \<^verbatim>\<open>config.enrichData\<close> holds, the leads found otherwise.
\<close>

definition candidates :: "'f workflow_config \<Rightarrow> 'f call list \<Rightarrow> lead list" where
  "candidates config calls =
     (if enrichData config then enriched_persons calls else found_leads calls)"

fun is_enrich_fault :: "'f call \<Rightarrow> bool" where
  "is_enrich_fault (EnrichCall _ (Inl e)) = True"
| "is_enrich_fault _ = False"

text \<open>The contact data submitted to \<^verbatim>\<open>createContact\<close>.\<close>

fun call_create_input :: "'f call \<Rightarrow> contact_data list" where
  "call_create_input (CreateCall contactData _) = [contactData]"
| "call_create_input _ = []"

definition create_inputs :: "'f call list \<Rightarrow> contact_data list" where
  "create_inputs calls = concat (map call_create_input calls)"

text \<open>The contacts of the creations that succeeded.\<close>

fun call_contact :: "'f call \<Rightarrow> contact list" where
  "call_contact (CreateCall _ (Inr r)) =
     (case (success r, data r) of (True, Some contact) \<Rightarrow> [contact] | _ \<Rightarrow> [])"
| "call_contact _ = []"

definition created_contacts :: "'f call list \<Rightarrow> contact list" where
  "created_contacts calls = concat (map call_contact calls)"

text \<open>The entry of \<^verbatim>\<open>results.errors\<close> that a returned call leaves.\<close>

fun call_error_entry :: "'f call \<Rightarrow> error_entry list" where
  "call_error_entry (CreateCall (ContactData fname lname _ _ _ _ _) (Inr r)) =
     (case (success r, data r) of
        (True, Some contact) \<Rightarrow> []
      | _ \<Rightarrow> [LeadError (template_str fname @ '' '' @ template_str lname) (error r)])"
| "call_error_entry (SequenceCall _ _ _ (Inr r)) =
     (if success r then [] else [StepError ''sequence'' (error r)])"
| "call_error_entry _ = []"

definition error_entries :: "'f call list \<Rightarrow> error_entry list" where
  "error_entries calls = concat (map call_error_entry calls)"

text \<open>The contacts a successful enrollment was given.\<close>

fun call_enrolled :: "'f call \<Rightarrow> string option list" where
  "call_enrolled (SequenceCall _ contactIds _ (Inr r)) = (if success r then contactIds else [])"
| "call_enrolled _ = []"

definition enrolled :: "'f call list \<Rightarrow> string option list" where
  "enrolled calls = concat (map call_enrolled calls)"

text \<open>The calls of \<^verbatim>\<open>addContactsToSequence\<close>.\<close>

fun is_sequence_call :: "'f call \<Rightarrow> bool" where
  "is_sequence_call (SequenceCall _ _ _ _) = True"
| "is_sequence_call _ = False"

definition sequence_calls :: "'f call list \<Rightarrow> 'f call list" where
  "sequence_calls calls = filter is_sequence_call calls"

text \<open>The two kinds of entries of \<^verbatim>\<open>results.errors\<close>.\<close>

fun is_lead_error :: "error_entry \<Rightarrow> bool" where
  "is_lead_error (LeadError _ _) = True"
| "is_lead_error (StepError _ _) = False"

definition lead_failures :: "error_entry list \<Rightarrow> error_entry list" where
  "lead_failures es = filter is_lead_error es"

definition step_failures :: "error_entry list \<Rightarrow> error_entry list" where
  "step_failures es = filter (\<lambda>e. \<not> is_lead_error e) es"

text \<open>
  The result that a call list accounts for: every counter from the calls that returned,
  \<open>enriched\<close> only once the enrichment loop is through, and the message of the thrown
  error.
\<close>

definition result_of :: "'f call list \<Rightarrow> workflow_result" where
  "result_of calls =
     \<lparr>searched = length (found_leads calls),
      enriched = (if list_ex is_enrich_fault calls then 0 else length (enriched_persons calls)),
      created = length (created_contacts calls),
      addedToSequence = length (enrolled calls),
      errors = error_entries calls,
      wf_error = (case thrown_errors calls of [] \<Rightarrow> None | e # _ \<Rightarrow> Some (message e))\<rparr>"

subsection \<open>A scripted platform\<close>

text \<open>
  A platform to run the client on: the world is the clock and the answers that the
  next physical calls get. The timer rounds the delay up to whole milliseconds; a call
  with no answer left fails as a network error.
\<close>

definition http_error :: "int \<Rightarrow> js_error" where
  "http_error code = \<lparr>message = ''Request failed'', response = Some \<lparr>status = code\<rparr>\<rparr>"

definition scripted_platform :: "(int \<times> (js_error + 'r) list, 'd, 'r) platform" where
  "scripted_platform =
     \<lparr>date_now = fst,
      set_timeout = (\<lambda>d (t, script). (t + \<lceil>d\<rceil>, script)),
      axios = (\<lambda>config (t, script).
                 case script of
                   [] \<Rightarrow> (Inl (new_Error ''Network Error''), (t, []))
                 | answer # rest \<Rightarrow> (answer, (t, rest)))\<rparr>"



definition example_client :: api_client where
  "example_client =
     \<lparr>baseURL = ''https://api.apollo.io/v1'', apiKey = ''key'', rateLimit = 10,
      lastRequestTime = 0\<rparr>"

subsection \<open>Scripted collaborators\<close>

text \<open>
  Collaborators to run the workflow on: the search and the enrollment give one fixed
  answer; the world holds the answers that the next enrichment calls and the next
  creation calls get. A call with no answer left throws.
\<close>

definition scripted_collaborators ::
  "(js_error + lead list api_result) \<Rightarrow> (js_error + unit api_result)
     \<Rightarrow> (unit, (js_error + match list api_result) list \<times>
               (js_error + contact option api_result) list) collaborators" where
  "scripted_collaborators searchAnswer sequenceAnswer =
     \<lparr>search_searchPeople = (\<lambda>params w. (searchAnswer, w)),
      enrichment_enrichPeopleBulk =
        (\<lambda>batchData (enrichAnswers, createAnswers).
           case enrichAnswers of
             [] \<Rightarrow> (Inl (new_Error ''no answer''), ([], createAnswers))
           | answer # rest \<Rightarrow> (answer, (rest, createAnswers))),
      contacts_createContact =
        (\<lambda>contactData (enrichAnswers, createAnswers).
           case createAnswers of
             [] \<Rightarrow> (Inl (new_Error ''no answer''), (enrichAnswers, []))
           | answer # rest \<Rightarrow> (answer, (enrichAnswers, rest))),
      outreach_addContactsToSequence = (\<lambda>sid contactIds eid w. (sequenceAnswer, w))\<rparr>"

definition lead_named :: "string \<Rightarrow> string \<Rightarrow> lead" where
  "lead_named a b =
     \<lparr>first_name = Some a, last_name = Some b, email = None, title = None,
      organization = None, organization_name = None, linkedin_url = None\<rparr>"

definition succeeded :: "'a \<Rightarrow> 'a api_result" where
  "succeeded d = \<lparr>success = True, data = d, error = None\<rparr>"

definition failed :: "'a \<Rightarrow> string \<Rightarrow> 'a api_result" where
  "failed d msg = \<lparr>success = False, data = d, error = Some msg\<rparr>"

definition example_config :: "unit workflow_config" where
  "example_config =
     \<lparr>searchFilters = (), enrichData = False, addToLists = None, sequenceId = None,
      emailAccountId = None, maxResults = None\<rparr>"

subsection \<open>Example runs\<close>

text \<open>Two leads, no enrichment; the second creation call throws.\<close>

definition run_create_throws where
  "run_create_throws =
     generateLeads
       (scripted_collaborators
          (Inr (succeeded [lead_named ''Ada'' ''Lovelace'', lead_named ''Alan'' ''Turing'']))
          (Inr (succeeded ())))
       example_config
       ([], [Inr (succeeded (Some \<lparr>contact_id = Some ''c1''\<rparr>)),
             Inl (new_Error ''socket hang up'')])"

text \<open>Three leads, no enrichment; the first creation call throws.\<close>

definition run_first_create_throws where
  "run_first_create_throws =
     generateLeads
       (scripted_collaborators
          (Inr (succeeded [lead_named ''Ada'' ''Lovelace'', lead_named ''Alan'' ''Turing'',
                           lead_named ''Grace'' ''Hopper'']))
          (Inr (succeeded ())))
       example_config
       ([], [Inl (new_Error ''socket hang up'')])"

text \<open>
  One lead; the enrichment call returns two persons for it; the second creation call
  throws.
\<close>

definition run_over_enriched where
  "run_over_enriched =
     generateLeads
       (scripted_collaborators
          (Inr (succeeded [lead_named ''Ada'' ''Lovelace'']))
          (Inr (succeeded ())))
       (example_config\<lparr>enrichData := True\<rparr>)
       ([Inr (succeeded [\<lparr>person = Some (lead_named ''Ada'' ''Lovelace'')\<rparr>,
                        \<lparr>person = Some (lead_named ''Alan'' ''Turing'')\<rparr>])],
        [Inr (succeeded (Some \<lparr>contact_id = Some ''c1''\<rparr>)),
         Inl (new_Error ''socket hang up'')])"

text \<open>
  Two leads, enriched in one chunk that matches the first only; its creation fails.
\<close>

definition run_one_matched where
  "run_one_matched =
     generateLeads
       (scripted_collaborators
          (Inr (succeeded [lead_named ''Ada'' ''Lovelace'', lead_named ''Alan'' ''Turing'']))
          (Inr (succeeded ())))
       (example_config\<lparr>enrichData := True\<rparr>)
       ([Inr (succeeded [\<lparr>person = Some (lead_named ''Ada'' ''Lovelace'')\<rparr>,
                        \<lparr>person = None\<rparr>])],
        [Inr (failed None ''Email already exists'')])"

text \<open>
  Two leads, no enrichment; the first creation succeeds and the second fails; the
  enrollment into sequence \<^verbatim>\<open>seq1\<close> fails.
\<close>

definition run_sequence_fails where
  "run_sequence_fails =
     generateLeads
       (scripted_collaborators
          (Inr (succeeded [lead_named ''Ada'' ''Lovelace'', lead_named ''Alan'' ''Turing'']))
          (Inr (failed () ''Sequence is archived'')))
       (example_config\<lparr>sequenceId := Some ''seq1'', emailAccountId := Some ''acc1''\<rparr>)
       ([], [Inr (succeeded (Some \<lparr>contact_id = Some ''c1''\<rparr>)),
             Inr (failed None ''Email already exists'')])"

text \<open>
  Eleven leads, enriched in two chunks: the call for the first ten fails, the call for
  the eleventh matches it; its creation succeeds.
\<close>

definition run_chunk_fails where
  "run_chunk_fails =
     generateLeads
       (scripted_collaborators
          (Inr (succeeded (replicate 10 (lead_named ''Ada'' ''Lovelace'') @
                           [lead_named ''Alan'' ''Turing''])))
          (Inr (succeeded ())))
       (example_config\<lparr>enrichData := True\<rparr>)
       ([Inr (failed [] ''Request failed''),
         Inr (succeeded [\<lparr>person = Some (lead_named ''Alan'' ''Turing'')\<rparr>])],
        [Inr (succeeded (Some \<lparr>contact_id = Some ''c1''\<rparr>))])"

section \<open>The batches\<close>









section \<open>The retry loop of the client\<close>

lemma physical_calls_simps [simp]:
  "physical_calls [] = []"
  "physical_calls (PhysicalCall i e # evs) = PhysicalCall i e # physical_calls evs"
  "physical_calls (BackoffWait d # evs) = physical_calls evs"
  "physical_calls (Acquire # evs) = physical_calls evs"
  by (simp_all add: physical_calls_def)

lemma request_loop_cases:
  assumes "request_loop p config retries a le w = (res, w', evs)"
  obtains
    (stop) "\<not> a < retries" "res = Inl le" "w' = w" "evs = []"
  | (ok) r where "a < retries" "axios p config w = (Inr r, w')" "res = Inr r"
      "evs = [PhysicalCall a None]"
  | (client) e where "a < retries" "axios p config w = (Inl e, w')" "is_client_error e"
      "res = Inl (Some e)" "evs = [PhysicalCall a (Some e)]"
  | (retry) e w1 evs' where "a < retries" "axios p config w = (Inl e, w1)"
      "\<not> is_client_error e" "a < retries - 1"
      "request_loop p config retries (a + 1) (Some e)
         (set_timeout p (of_nat (2 ^ a * 1000)) w1) = (res, w', evs')"
      "evs = PhysicalCall a (Some e) # BackoffWait (2 ^ a * 1000) # evs'"
  | (last) e w1 evs' where "a < retries" "axios p config w = (Inl e, w1)"
      "\<not> is_client_error e" "\<not> a < retries - 1"
      "request_loop p config retries (a + 1) (Some e) w1 = (res, w', evs')"
      "evs = PhysicalCall a (Some e) # evs'"
  using assms
  by (subst (asm) request_loop.simps)
     (auto simp: Let_def split: if_splits prod.splits sum.splits)

lemma request_loop_calls:
  "request_loop p config retries a le w = (res, w', evs) \<Longrightarrow>
     length (physical_calls evs) \<le> retries - a \<and> Acquire \<notin> set evs"
proof (induction "retries - a" arbitrary: a le w res w' evs)
  case 0
  from "0.prems" show ?case
    using "0.hyps" by (cases rule: request_loop_cases) auto
next
  case (Suc n)
  from Suc.prems show ?case
  proof (cases rule: request_loop_cases)
    case (retry e w1 evs')
    have "n = retries - (a + 1)" using Suc.hyps(2) by simp
    from Suc.hyps(1) [OF this retry(5)] retry show ?thesis by auto
  next
    case (last e w1 evs')
    have "n = retries - (a + 1)" using Suc.hyps(2) by simp
    from Suc.hyps(1) [OF this last(5)] last show ?thesis by auto
  qed auto
qed

lemma request_loop_client_error:
  "request_loop p config retries a le w = (res, w', evs) \<Longrightarrow>
   PhysicalCall i (Some e) \<in> set evs \<Longrightarrow> is_client_error e \<Longrightarrow>
     last evs = PhysicalCall i (Some e) \<and> res = Inl (Some e) \<and> a \<le> i \<and>
     length (physical_calls evs) = i + 1 - a"
proof (induction "retries - a" arbitrary: a le w res w' evs)
  case 0
  from "0.prems"(1) show ?case
    using "0.hyps" "0.prems"(2) by (cases rule: request_loop_cases) auto
next
  case (Suc n)
  from Suc.prems(1) show ?case
  proof (cases rule: request_loop_cases)
    case (retry e1 w1 evs')
    have n: "n = retries - (a + 1)" using Suc.hyps(2) by simp
    from retry Suc.prems have "PhysicalCall i (Some e) \<in> set evs'" by auto
    from Suc.hyps(1) [OF n retry(5) this Suc.prems(3)] retry show ?thesis by auto
  next
    case (last e1 w1 evs')
    have n: "n = retries - (a + 1)" using Suc.hyps(2) by simp
    from last Suc.prems have "PhysicalCall i (Some e) \<in> set evs'" by auto
    from Suc.hyps(1) [OF n last(5) this Suc.prems(3)] last show ?thesis by auto
  qed (use Suc.prems in auto)
qed

lemma request_loop_previous:
  "request_loop p config retries a le w = (res, w', evs) \<Longrightarrow>
   (pv, ev) \<in> set (with_previous prev evs) \<Longrightarrow>
     (case ev of
        Acquire \<Rightarrow> False
      | PhysicalCall i e \<Rightarrow>
          a \<le> i \<and> (if i = a then pv = prev else pv = Some (BackoffWait (2 ^ (i - 1) * 1000)))
      | BackoffWait d \<Rightarrow>
          (\<exists>i e. pv = Some (PhysicalCall i (Some e)) \<and> d = 2 ^ i * 1000))"
proof (induction "retries - a" arbitrary: a le w res w' evs prev)
  case 0
  from "0.prems"(1) show ?case
    using "0.hyps" "0.prems"(2) by (cases rule: request_loop_cases) auto
next
  case (Suc n)
  from Suc.prems(1) show ?case
  proof (cases rule: request_loop_cases)
    case (retry e1 w1 evs')
    have n: "n = retries - (a + 1)" using Suc.hyps(2) by simp
    from retry Suc.prems(2) consider
        "pv = prev" "ev = PhysicalCall a (Some e1)"
      | "pv = Some (PhysicalCall a (Some e1))" "ev = BackoffWait (2 ^ a * 1000)"
      | "(pv, ev) \<in> set (with_previous (Some (BackoffWait (2 ^ a * 1000))) evs')"
      by auto
    then show ?thesis
    proof cases
      case 3
      from Suc.hyps(1) [OF n retry(5) 3] show ?thesis
        by (cases ev) (auto split: if_splits)
    qed auto
  next
    case (last e1 w1 evs')
    from last(1,4) have "\<not> a + 1 < retries" by simp
    with last(5) have "evs' = []" by (cases rule: request_loop_cases) auto
    with last Suc.prems(2) show ?thesis by auto
  qed (use Suc.prems in auto)
qed


lemma request_cases:
  assumes "APIClient_request p this method endpoint payload retries w = (res, this', w', evs)"
  obtains config w1 rest where
    "APIClient_rateLimit p this w = (this', w1)"
    "request_loop p config retries 0 None w1 = (res, w', rest)"
    "evs = Acquire # rest"
  using assms
  by (auto simp: APIClient_request_def Let_def split: prod.splits)

text \<open>
  \<^bold>\<open>C2\<close>. One call of \<^verbatim>\<open>request\<close> with budget \<open>retries\<close> makes at most
  \<open>retries\<close> physical calls. A physical call that fails with a status in \<open>[400, 500)\<close>
  is the last event of the operation: its error is thrown at once and nothing is retried,
  so that a 4xx at attempt \<open>i\<close> means \<open>i + 1\<close> physical calls in all, and exactly one
  when the first call fails so.
\<close>

theorem request_physical_calls:
  "APIClient_request p this method endpoint payload retries w = (res, this', w', evs) \<Longrightarrow>
     length (physical_calls evs) \<le> retries \<and>
     (\<forall>i e. PhysicalCall i (Some e) \<in> set evs \<and> is_client_error e \<longrightarrow>
        last evs = PhysicalCall i (Some e) \<and> res = Inl (Some e) \<and>
        length (physical_calls evs) = i + 1)"
proof (erule request_cases)
  fix config w1 rest
  assume loop: "request_loop p config retries 0 None w1 = (res, w', rest)"
    and evs: "evs = Acquire # rest"
  from request_loop_calls [OF loop] evs
  have bound: "length (physical_calls evs) \<le> retries" by simp
  have "last evs = PhysicalCall i (Some e) \<and> res = Inl (Some e) \<and>
        length (physical_calls evs) = i + 1"
    if "PhysicalCall i (Some e) \<in> set evs" "is_client_error e" for i e
  proof -
    from that(1) evs have mem: "PhysicalCall i (Some e) \<in> set rest" by simp
    then have "rest \<noteq> []" by auto
    with request_loop_client_error [OF loop mem that(2)] evs show ?thesis by simp
  qed
  with bound show ?thesis by blast
qed

text \<open>The first call answers 404: one physical call.\<close>

theorem request_physical_calls_witness:
  "APIClient_request (scripted_platform :: (_, unit, unit) platform) example_client
     ''POST'' ''/contacts'' None 3 (0, [Inl (http_error 404), Inr ()]) =
   (Inl (Some (http_error 404)), example_client\<lparr>lastRequestTime := 6000\<rparr>, (6000, [Inr ()]),
    [Acquire, PhysicalCall 0 (Some (http_error 404))]) \<and>
   is_client_error (http_error 404) \<and>
   length (physical_calls [Acquire, PhysicalCall 0 (Some (http_error 404))]) = 0 + 1"
proof -
  have run:
    "APIClient_request (scripted_platform :: (_, unit, unit) platform) example_client
       ''POST'' ''/contacts'' None 3 (0, [Inl (http_error 404), Inr ()]) =
     (Inl (Some (http_error 404)), example_client\<lparr>lastRequestTime := 6000\<rparr>,
      (6000, [Inr ()]), [Acquire, PhysicalCall 0 (Some (http_error 404))])"
    by (simp add: APIClient_request_def APIClient_rateLimit_def request_loop.simps
        scripted_platform_def example_client_def is_client_error_def http_error_def)
  have client: "is_client_error (http_error 404)"
    by (simp add: is_client_error_def http_error_def)
  from request_physical_calls [OF run] client
  have "length (physical_calls [Acquire, PhysicalCall 0 (Some (http_error 404))]) = 0 + 1"
    by simp
  with run client show ?thesis by simp
qed

text \<open>
  A 404 that follows a 500: a physical call returned a 4xx status, and two physical
  calls were made in all.
\<close>

theorem request_client_error_after_retry:
  "APIClient_request (scripted_platform :: (_, unit, unit) platform) example_client
     ''POST'' ''/contacts'' None 3 (0, [Inl (http_error 500), Inl (http_error 404)]) =
   (Inl (Some (http_error 404)), example_client\<lparr>lastRequestTime := 6000\<rparr>, (7000, []),
    [Acquire, PhysicalCall 0 (Some (http_error 500)), BackoffWait 1000,
     PhysicalCall 1 (Some (http_error 404))]) \<and>
   is_client_error (http_error 404) \<and>
   length (physical_calls
     [Acquire, PhysicalCall 0 (Some (http_error 500)), BackoffWait 1000,
      PhysicalCall 1 (Some (http_error 404))]) = 2"
  by (simp add: APIClient_request_def APIClient_rateLimit_def request_loop.simps
      scripted_platform_def example_client_def is_client_error_def http_error_def)

text \<open>
  \<^bold>\<open>C3\<close>. One call of \<^verbatim>\<open>request\<close> runs \<^verbatim>\<open>_rateLimit\<close> exactly once, as its
  first step. A physical call comes right after that step exactly when it is attempt 0;
  a retry is not preceded by it.
\<close>

theorem request_acquires_once:
  "APIClient_request p this method endpoint payload retries w = (res, this', w', evs) \<Longrightarrow>
     (\<exists>rest. evs = Acquire # rest \<and> Acquire \<notin> set rest) \<and>
     (\<forall>pv i e. (pv, PhysicalCall i e) \<in> set (with_previous None evs) \<longrightarrow>
        (pv = Some Acquire) = (i = 0))"
proof (erule request_cases)
  fix config w1 rest
  assume loop: "request_loop p config retries 0 None w1 = (res, w', rest)"
    and evs: "evs = Acquire # rest"
  from request_loop_calls [OF loop] have no: "Acquire \<notin> set rest" by simp
  have "(pv = Some Acquire) = (i = 0)"
    if "(pv, PhysicalCall i e) \<in> set (with_previous None evs)" for pv i e
  proof -
    from that evs have "(pv, PhysicalCall i e) \<in> set (with_previous (Some Acquire) rest)"
      by simp
    from request_loop_previous [OF loop this] show ?thesis by (auto split: if_splits)
  qed
  with no evs show ?thesis by blast
qed

text \<open>A call that succeeds at once.\<close>

theorem request_acquires_once_witness:
  "APIClient_request (scripted_platform :: (_, unit, unit) platform) example_client
     ''POST'' ''/contacts'' None 3 (0, [Inr ()]) =
   (Inr (), example_client\<lparr>lastRequestTime := 6000\<rparr>, (6000, []),
    [Acquire, PhysicalCall 0 None]) \<and>
   (Some Acquire, PhysicalCall 0 None) \<in> set (with_previous None [Acquire, PhysicalCall 0 None])"
proof -
  have run:
    "APIClient_request (scripted_platform :: (_, unit, unit) platform) example_client
       ''POST'' ''/contacts'' None 3 (0, [Inr ()]) =
     (Inr (), example_client\<lparr>lastRequestTime := 6000\<rparr>, (6000, []),
      [Acquire, PhysicalCall 0 None])"
    by (simp add: APIClient_request_def APIClient_rateLimit_def request_loop.simps
        scripted_platform_def example_client_def)
  from request_acquires_once [OF run] run show ?thesis by simp
qed

text \<open>
  A 500 and then a success: the second physical call comes right after the backoff wait,
  with no \<^verbatim>\<open>_rateLimit\<close> step since the first one.
\<close>

theorem retry_without_acquire:
  "APIClient_request (scripted_platform :: (_, unit, unit) platform) example_client
     ''POST'' ''/contacts'' None 3 (0, [Inl (http_error 500), Inr ()]) =
   (Inr (), example_client\<lparr>lastRequestTime := 6000\<rparr>, (7000, []),
    [Acquire, PhysicalCall 0 (Some (http_error 500)), BackoffWait 1000, PhysicalCall 1 None]) \<and>
   (Some (BackoffWait 1000), PhysicalCall 1 None) \<in> set (with_previous None
      [Acquire, PhysicalCall 0 (Some (http_error 500)), BackoffWait 1000, PhysicalCall 1 None])"
  by (simp add: APIClient_request_def APIClient_rateLimit_def request_loop.simps
      scripted_platform_def example_client_def is_client_error_def http_error_def)

text \<open>
  \<^bold>\<open>C4\<close>. The wait that follows the failed attempt \<open>i\<close> is \<open>2 ^ i * 1000\<close>
  milliseconds; the wait right before attempt \<open>i \<ge> 1\<close> is therefore
  \<open>2 ^ (i - 1) * 1000\<close> milliseconds. It depends on the attempt index only.
\<close>

theorem backoff_after_attempt:
  "APIClient_request p this method endpoint payload retries w = (res, this', w', evs) \<Longrightarrow>
   (pv, ev) \<in> set (with_previous None evs) \<Longrightarrow>
     (\<forall>d. ev = BackoffWait d \<longrightarrow>
        (\<exists>i e. pv = Some (PhysicalCall i (Some e)) \<and> d = 2 ^ i * 1000)) \<and>
     (\<forall>i e. ev = PhysicalCall i e \<and> 1 \<le> i \<longrightarrow>
        pv = Some (BackoffWait (2 ^ (i - 1) * 1000)))"
proof (erule request_cases)
  fix config w1 rest
  assume loop: "request_loop p config retries 0 None w1 = (res, w', rest)"
    and evs: "evs = Acquire # rest"
    and mem: "(pv, ev) \<in> set (with_previous None evs)"
  show ?thesis
  proof (cases "ev = Acquire")
    case True
    then show ?thesis by simp
  next
    case False
    with mem evs have "(pv, ev) \<in> set (with_previous (Some Acquire) rest)" by auto
    from request_loop_previous [OF loop this] show ?thesis
      by (cases ev) (auto split: if_splits)
  qed
qed

text \<open>Two failures, then a success: waits of one and of two seconds.\<close>

theorem backoff_after_attempt_witness:
  "APIClient_request (scripted_platform :: (_, unit, unit) platform) example_client
     ''POST'' ''/contacts'' None 3 (0, [Inl (http_error 500), Inl (http_error 503), Inr ()]) =
   (Inr (), example_client\<lparr>lastRequestTime := 6000\<rparr>, (9000, []),
    [Acquire, PhysicalCall 0 (Some (http_error 500)), BackoffWait 1000,
     PhysicalCall 1 (Some (http_error 503)), BackoffWait 2000, PhysicalCall 2 None]) \<and>
   (Some (BackoffWait 2000), PhysicalCall 2 None) \<in> set (with_previous None
     [Acquire, PhysicalCall 0 (Some (http_error 500)), BackoffWait 1000,
      PhysicalCall 1 (Some (http_error 503)), BackoffWait 2000, PhysicalCall 2 None]) \<and>
   Some (BackoffWait 2000) = Some (BackoffWait (2 ^ (2 - 1) * 1000))"
proof -
  have run:
    "APIClient_request (scripted_platform :: (_, unit, unit) platform) example_client
       ''POST'' ''/contacts'' None 3
       (0, [Inl (http_error 500), Inl (http_error 503), Inr ()]) =
     (Inr (), example_client\<lparr>lastRequestTime := 6000\<rparr>, (9000, []),
      [Acquire, PhysicalCall 0 (Some (http_error 500)), BackoffWait 1000,
       PhysicalCall 1 (Some (http_error 503)), BackoffWait 2000, PhysicalCall 2 None])"
    by (simp add: APIClient_request_def APIClient_rateLimit_def request_loop.simps
        scripted_platform_def example_client_def is_client_error_def http_error_def)
  have mem: "(Some (BackoffWait 2000), PhysicalCall 2 None) \<in> set (with_previous None
     [Acquire, PhysicalCall 0 (Some (http_error 500)), BackoffWait 1000,
      PhysicalCall 1 (Some (http_error 503)), BackoffWait 2000, PhysicalCall 2 None])"
    by simp
  from backoff_after_attempt [OF run mem] run mem show ?thesis by simp
qed

text \<open>
  The wait before attempt 1 is 1000 milliseconds, not \<open>2 ^ 1 * 1000\<close>.
\<close>

theorem first_backoff_is_one_second:
  "APIClient_request (scripted_platform :: (_, unit, unit) platform) example_client
     ''POST'' ''/contacts'' None 3 (0, [Inl (http_error 503), Inr ()]) =
   (Inr (), example_client\<lparr>lastRequestTime := 6000\<rparr>, (7000, []),
    [Acquire, PhysicalCall 0 (Some (http_error 503)), BackoffWait 1000, PhysicalCall 1 None]) \<and>
   (1000::nat) \<noteq> 2 ^ 1 * 1000"
  by (simp add: APIClient_request_def APIClient_rateLimit_def request_loop.simps
      scripted_platform_def example_client_def is_client_error_def http_error_def)

section \<open>The rate limiter\<close>








section \<open>The workflow\<close>

lemmas readers =
  thrown_errors_def found_leads_def enrich_returns_def enriched_persons_def
  create_inputs_def created_contacts_def error_entries_def enrolled_def sequence_calls_def

lemma create_loop_calls:
  "create_loop c config leads createdContacts results w =
     (thrown, createdContacts', results', w', calls) \<Longrightarrow>
   createdContacts' = createdContacts @ created_contacts calls \<and>
   results' = results\<lparr>created := created results + length (created_contacts calls),
                       errors := errors results @ error_entries calls\<rparr> \<and>
   found_leads calls = [] \<and> enrich_returns calls = [] \<and> \<not> list_ex is_enrich_fault calls \<and>
   enrolled calls = [] \<and>
   thrown_errors calls = (case thrown of None \<Rightarrow> [] | Some e \<Rightarrow> [e]) \<and>
   thrown_errors (butlast calls) = [] \<and> sequence_calls calls = [] \<and>
   create_inputs calls =
     map (contactData_of config) (take (length (create_inputs calls)) leads) \<and>
   (thrown = None \<longrightarrow> create_inputs calls = map (contactData_of config) leads)"
proof (induction leads arbitrary: createdContacts results w thrown createdContacts' results' w' calls)
  case Nil
  then show ?case by (simp add: readers)
next
  case (Cons lead rest)
  obtain fname lname a3 a4 a5 a6 a7 where cd:
    "contactData_of config lead = ContactData fname lname a3 a4 a5 a6 a7"
    "fname = first_name lead" "lname = last_name lead"
    by (simp add: contactData_of_def)
  show ?case
  proof (cases "contacts_createContact c (contactData_of config lead) w")
    case (Pair answer w1)
    show ?thesis
    proof (cases answer)
      case (Inl e)
      with Pair Cons.prems show ?thesis by (auto simp: readers)
    next
      case (Inr createResult)
      let ?call = "CreateCall (contactData_of config lead) (Inr createResult)"
      show ?thesis
      proof (cases "success createResult \<and> data createResult \<noteq> None")
        case True
        then obtain contact where ok: "success createResult" "data createResult = Some contact"
          by auto
        with Cons.prems Pair Inr obtain calls1 where
          rest: "create_loop c config rest (createdContacts @ [contact])
                   (results\<lparr>created := created results + 1\<rparr>) w1 =
                 (thrown, createdContacts', results', w', calls1)"
          and calls: "calls = ?call # calls1"
          by (auto simp: Let_def split: prod.splits)
        from Cons.IH [OF rest] ok show ?thesis
          by (simp add: calls cd readers)
      next
        case False
        with Cons.prems Pair Inr obtain calls1 where
          rest: "create_loop c config rest createdContacts
                   (results\<lparr>errors := errors results @
                      [LeadError (template_str (first_name lead) @ '' '' @
                                  template_str (last_name lead)) (error createResult)]\<rparr>) w1 =
                 (thrown, createdContacts', results', w', calls1)"
          and calls: "calls = ?call # calls1"
          by (auto simp: Let_def split: prod.splits bool.splits option.splits)
        from Cons.IH [OF rest] False show ?thesis
          by (auto simp: calls cd readers split: bool.splits option.splits)
      qed
    qed
  qed
qed


lemma enrich_loop_cases:
  assumes "enrich_loop c leads i enrichedLeads w = (res, w', calls)"
  obtains
    (stop) "\<not> i < length leads" "res = Inr enrichedLeads" "w' = w" "calls = []"
  | (thrown) e where "i < length leads"
      "enrichment_enrichPeopleBulk c (map batch_item (slice leads i (i + 10))) w = (Inl e, w')"
      "res = Inl e" "calls = [EnrichCall (map batch_item (slice leads i (i + 10))) (Inl e)]"
  | (step) enrichResult w1 calls1 where "i < length leads"
      "enrichment_enrichPeopleBulk c (map batch_item (slice leads i (i + 10))) w =
         (Inr enrichResult, w1)"
      "enrich_loop c leads (i + 10)
         (if success enrichResult then enrichedLeads @ persons (data enrichResult)
          else enrichedLeads) w1 = (res, w', calls1)"
      "calls = EnrichCall (map batch_item (slice leads i (i + 10))) (Inr enrichResult) # calls1"
  using assms
  by (subst (asm) enrich_loop.simps)
     (auto simp: Let_def split: if_splits prod.splits sum.splits)

lemma enrich_loop_calls:
  "enrich_loop c leads i enrichedLeads w = (res, w', calls) \<Longrightarrow>
   found_leads calls = [] \<and> create_inputs calls = [] \<and> created_contacts calls = [] \<and>
   error_entries calls = [] \<and> enrolled calls = [] \<and>
   (case res of
      Inr enrichedLeads' \<Rightarrow>
        enrichedLeads' = enrichedLeads @ enriched_persons calls \<and> thrown_errors calls = [] \<and>
        \<not> list_ex is_enrich_fault calls \<and>
        map fst (enrich_returns calls) = map (map batch_item) (batches leads i)
    | Inl e \<Rightarrow> thrown_errors calls = [e] \<and> list_ex is_enrich_fault calls) \<and>
   thrown_errors (butlast calls) = [] \<and> sequence_calls calls = [] \<and>
   length (concat (map fst (enrich_returns calls))) \<le> length leads - i"
proof (induction "length leads - i" arbitrary: i enrichedLeads w res w' calls rule: less_induct)
  case less
  from less.prems show ?case
  proof (cases rule: enrich_loop_cases)
    case stop
    then show ?thesis by (simp add: readers batches.simps)
  next
    case (thrown e)
    then show ?thesis by (simp add: readers)
  next
    case (step enrichResult w1 calls1)
    from step(1) have "length leads - (i + 10) < length leads - i" by simp
    from less.hyps [OF this step(3)] step(1,4) show ?thesis
      by (cases res) (auto simp: readers batches.simps [of leads i] slice_def)
  qed
qed

lemma add_to_sequence_calls:
  "add_to_sequence c config createdContacts results w = (thrown, results', w', calls) \<Longrightarrow>
   results' = results\<lparr>addedToSequence :=
                          (if enrolled calls = [] then addedToSequence results
                           else length (enrolled calls)),
                       errors := errors results @ error_entries calls\<rparr> \<and>
   found_leads calls = [] \<and> enrich_returns calls = [] \<and> \<not> list_ex is_enrich_fault calls \<and>
   create_inputs calls = [] \<and> created_contacts calls = [] \<and>
   thrown_errors calls = (case thrown of None \<Rightarrow> [] | Some e \<Rightarrow> [e]) \<and>
   (enrolled calls = [] \<or> enrolled calls = map contact_id createdContacts) \<and>
   thrown_errors (butlast calls) = [] \<and> sequence_calls calls = calls \<and>
   (calls = [] \<or>
    (\<exists>sid eid answer.
       calls = [SequenceCall sid (map contact_id createdContacts) eid answer] \<and>
       createdContacts \<noteq> []))"
  by (auto simp: add_to_sequence_def Let_def readers
      split: option.splits if_splits prod.splits sum.splits)


lemma readers_append:
  "thrown_errors (xs @ ys) = thrown_errors xs @ thrown_errors ys"
  "found_leads (xs @ ys) = found_leads xs @ found_leads ys"
  "enrich_returns (xs @ ys) = enrich_returns xs @ enrich_returns ys"
  "enriched_persons (xs @ ys) = enriched_persons xs @ enriched_persons ys"
  "create_inputs (xs @ ys) = create_inputs xs @ create_inputs ys"
  "created_contacts (xs @ ys) = created_contacts xs @ created_contacts ys"
  "error_entries (xs @ ys) = error_entries xs @ error_entries ys"
  "enrolled (xs @ ys) = enrolled xs @ enrolled ys"
  "sequence_calls (xs @ ys) = sequence_calls xs @ sequence_calls ys"
  by (simp_all add: readers)

lemma readers_Nil:
  "thrown_errors [] = []" "found_leads [] = []" "enrich_returns [] = []"
  "enriched_persons [] = []" "create_inputs [] = []" "created_contacts [] = []"
  "error_entries [] = []" "enrolled [] = []" "sequence_calls [] = []"
  by (simp_all add: readers)

lemma readers_Cons:
  "thrown_errors (x # xs) = call_thrown x @ thrown_errors xs"
  "found_leads (x # xs) = call_found x @ found_leads xs"
  "enrich_returns (x # xs) = call_enrich_return x @ enrich_returns xs"
  "enriched_persons (x # xs) =
     concat (map (\<lambda>(batchData, r). persons (data r))
       (filter (\<lambda>(batchData, r). success r) (call_enrich_return x))) @ enriched_persons xs"
  "create_inputs (x # xs) = call_create_input x @ create_inputs xs"
  "created_contacts (x # xs) = call_contact x @ created_contacts xs"
  "error_entries (x # xs) = call_error_entry x @ error_entries xs"
  "enrolled (x # xs) = call_enrolled x @ enrolled xs"
  "sequence_calls (x # xs) = (if is_sequence_call x then [x] else []) @ sequence_calls xs"
  by (simp_all add: readers)

lemma thrown_errors_butlast: "thrown_errors xs = [] \<Longrightarrow> thrown_errors (butlast xs) = []"
  by (auto simp: thrown_errors_def dest: in_set_butlastD)

lemma enriched_persons_none: "enrich_returns calls = [] \<Longrightarrow> enriched_persons calls = []"
  by (simp add: enriched_persons_def)

lemma thrown_errors_butlast_append:
  "thrown_errors xs = [] \<Longrightarrow> thrown_errors (butlast ys) = [] \<Longrightarrow>
     thrown_errors (butlast (xs @ ys)) = []"
  by (simp add: butlast_append readers_append thrown_errors_butlast)

lemma thrown_errors_butlast_Cons:
  "call_thrown x = [] \<Longrightarrow> thrown_errors (butlast xs) = [] \<Longrightarrow>
     thrown_errors (butlast (x # xs)) = []"
  by (simp add: readers_Cons readers_Nil)

lemmas butlast_thrown =
  thrown_errors_butlast thrown_errors_butlast_append thrown_errors_butlast_Cons

lemma batches_Nil: "batches [] i = []"
  by (simp add: batches.simps)

lemma generateLeads_try_calls:
  assumes "generateLeads_try c config initial_results w = (thrown, results, w', calls)"
  shows "results = (result_of calls)\<lparr>wf_error := None\<rparr>"
    and "thrown_errors calls = (case thrown of None \<Rightarrow> [] | Some e \<Rightarrow> [e])"
    and "thrown = None \<Longrightarrow>
           create_inputs calls = map (contactData_of config)
             (if enrichData config then enriched_persons calls else found_leads calls)"
    and "enrolled calls = [] \<or> enrolled calls = map contact_id (created_contacts calls)"
    and "length (concat (map fst (enrich_returns calls))) \<le> length (found_leads calls)"
    and "thrown_errors (butlast calls) = []"
    and "sequence_calls calls = [] \<or>
         (\<exists>sid eid answer.
            sequence_calls calls =
              [SequenceCall sid (map contact_id (created_contacts calls)) eid answer] \<and>
            created_contacts calls \<noteq> [])"
    and "thrown = None \<Longrightarrow> enrichData config \<Longrightarrow>
           map fst (enrich_returns calls) = map (map batch_item) (batches (found_leads calls) 0)"
    and "create_inputs calls = map (contactData_of config)
           (take (length (create_inputs calls))
              (if enrichData config then enriched_persons calls else found_leads calls))"
proof -
  define params where "params = SearchParams (searchFilters config)
     (min (case maxResults config of None \<Rightarrow> 25 | Some n \<Rightarrow> if n = 0 then 25 else n) 100)"
  obtain answer w1 where search: "search_searchPeople c params w = (answer, w1)"
    by (cases "search_searchPeople c params w")
  note run = assms [unfolded generateLeads_try_def, folded params_def, unfolded Let_def search]
  let ?goal = "results = (result_of calls)\<lparr>wf_error := None\<rparr> \<and>
    thrown_errors calls = (case thrown of None \<Rightarrow> [] | Some e \<Rightarrow> [e]) \<and>
    (thrown = None \<longrightarrow>
       create_inputs calls = map (contactData_of config)
         (if enrichData config then enriched_persons calls else found_leads calls)) \<and>
    (enrolled calls = [] \<or> enrolled calls = map contact_id (created_contacts calls)) \<and>
    length (concat (map fst (enrich_returns calls))) \<le> length (found_leads calls) \<and>
    thrown_errors (butlast calls) = [] \<and>
    (sequence_calls calls = [] \<or>
     (\<exists>sid eid answer.
        sequence_calls calls =
          [SequenceCall sid (map contact_id (created_contacts calls)) eid answer] \<and>
        created_contacts calls \<noteq> [])) \<and>
    (thrown = None \<and> enrichData config \<longrightarrow>
       map fst (enrich_returns calls) = map (map batch_item) (batches (found_leads calls) 0)) \<and>
    create_inputs calls = map (contactData_of config)
      (take (length (create_inputs calls))
         (if enrichData config then enriched_persons calls else found_leads calls))"
  have ?goal
  proof (cases answer)
    case (Inl e)
    with run show ?thesis
      by (auto simp: result_of_def initial_results_def readers_Cons readers_Nil enriched_persons_none batches_Nil)
  next
    case (Inr searchResult)
    show ?thesis
    proof (cases "\<not> success searchResult \<or> length (data searchResult) = 0")
      case True
      with run Inr show ?thesis
        by (auto simp: result_of_def initial_results_def readers_Cons readers_Nil enriched_persons_none batches_Nil)
    next
      case False
      let ?calls1 = "[SearchCall params (Inr searchResult)]"
      let ?results1 = "initial_results\<lparr>searched := length (data searchResult)\<rparr>"
      obtain thrown2 leadsToProcess results2 w2 calls2 where step2:
        "(if enrichData config then enrich_step c (data searchResult) ?results1 w1
          else (None, data searchResult, ?results1, w1, [])) =
         (thrown2, leadsToProcess, results2, w2, calls2)"
        by (metis prod_cases5)
      have two:
        "found_leads calls2 = [] \<and> create_inputs calls2 = [] \<and> created_contacts calls2 = [] \<and>
         error_entries calls2 = [] \<and> enrolled calls2 = [] \<and>
         thrown_errors calls2 = (case thrown2 of None \<Rightarrow> [] | Some e \<Rightarrow> [e]) \<and>
         list_ex is_enrich_fault calls2 = (thrown2 \<noteq> None) \<and>
         (thrown2 = None \<longrightarrow>
            leadsToProcess =
              (if enrichData config then enriched_persons calls2 else data searchResult)) \<and>
         results2 = ?results1\<lparr>enriched :=
            (if thrown2 = None then length (enriched_persons calls2) else 0)\<rparr> \<and>
         thrown_errors (butlast calls2) = [] \<and> sequence_calls calls2 = [] \<and>
         (thrown2 = None \<and> enrichData config \<longrightarrow>
            map fst (enrich_returns calls2) = map (map batch_item) (batches (data searchResult) 0)) \<and>
         length (concat (map fst (enrich_returns calls2))) \<le> length (data searchResult)"
      proof (cases "enrichData config")
        case True
        obtain res w1' calls' where loop:
          "enrich_loop c (data searchResult) 0 [] w1 = (res, w1', calls')"
          by (metis prod_cases3)
        from enrich_loop_calls [OF loop] step2 True loop show ?thesis
          by (cases res) (auto simp: enrich_step_def initial_results_def)
      next
        case False
        with step2 show ?thesis
          by (auto simp: readers_Nil initial_results_def)
      qed
      show ?thesis
      proof (cases thrown2)
        case (Some e)
        with run Inr False step2 have "thrown = Some e" "results = results2"
          "calls = ?calls1 @ calls2"
          by auto
        with two Some False show ?thesis
          by (auto simp: result_of_def readers_append readers_Cons readers_Nil
              enriched_persons_none batches_Nil initial_results_def butlast_thrown
              simp del: butlast_append butlast.simps)
      next
        case None
        obtain thrown3 createdContacts results3 w3 calls3 where step3:
          "create_loop c config leadsToProcess [] results2 w2 =
           (thrown3, createdContacts, results3, w3, calls3)"
          by (metis prod_cases5)
        note three = create_loop_calls [OF step3]
        show ?thesis
        proof (cases thrown3)
          case (Some e)
          with run Inr False step2 None step3 have "thrown = Some e" "results = results3"
            "calls = ?calls1 @ calls2 @ calls3"
            by auto
          with two three Some None False show ?thesis
            by (auto simp: result_of_def readers_append readers_Cons readers_Nil
                enriched_persons_none batches_Nil initial_results_def butlast_thrown
                simp del: butlast_append butlast.simps)
        next
          case None3: None
          obtain thrown4 results4 w4 calls4 where step4:
            "add_to_sequence c config createdContacts results3 w3 =
             (thrown4, results4, w4, calls4)"
            by (metis prod_cases4)
          note four = add_to_sequence_calls [OF step4]
          from run Inr False step2 None step3 None3 step4
          have "thrown = thrown4" "results = results4"
            "calls = ?calls1 @ calls2 @ calls3 @ calls4"
            by auto
          with two three four None None3 False show ?thesis
            by (auto simp: result_of_def readers_append readers_Cons readers_Nil
                enriched_persons_none batches_Nil initial_results_def butlast_thrown
                simp del: butlast_append butlast.simps)
        qed
      qed
    qed
  qed
  then show "results = (result_of calls)\<lparr>wf_error := None\<rparr>"
    and "thrown_errors calls = (case thrown of None \<Rightarrow> [] | Some e \<Rightarrow> [e])"
    and "thrown = None \<Longrightarrow>
           create_inputs calls = map (contactData_of config)
             (if enrichData config then enriched_persons calls else found_leads calls)"
    and "enrolled calls = [] \<or> enrolled calls = map contact_id (created_contacts calls)"
    and "length (concat (map fst (enrich_returns calls))) \<le> length (found_leads calls)"
    and "thrown_errors (butlast calls) = []"
    and "sequence_calls calls = [] \<or>
         (\<exists>sid eid answer.
            sequence_calls calls =
              [SequenceCall sid (map contact_id (created_contacts calls)) eid answer] \<and>
            created_contacts calls \<noteq> [])"
    and "thrown = None \<Longrightarrow> enrichData config \<Longrightarrow>
           map fst (enrich_returns calls) = map (map batch_item) (batches (found_leads calls) 0)"
    and "create_inputs calls = map (contactData_of config)
           (take (length (create_inputs calls))
              (if enrichData config then enriched_persons calls else found_leads calls))"
    by simp_all
qed


lemma generateLeads_cases:
  assumes "generateLeads c config w = (res, w', calls)"
  obtains thrown results where
    "generateLeads_try c config initial_results w = (thrown, results, w', calls)"
    "res = Inr (case thrown of None \<Rightarrow> results
                | Some e \<Rightarrow> results\<lparr>wf_error := Some (message e)\<rparr>)"
  using assms
  by (cases "generateLeads_try c config initial_results w")
     (auto simp: generateLeads_def split: option.splits)

lemma generateLeads_result_of:
  assumes "generateLeads c config w = (res, w', calls)"
  shows "res = Inr (result_of calls)"
  using assms
proof (cases rule: generateLeads_cases)
  case (1 thrown results)
  from generateLeads_try_calls(1,2) [OF 1(1)] 1(2) show ?thesis
    by (cases thrown) (simp_all add: result_of_def)
qed

lemma create_calls_accounted:
  "length (created_contacts calls) + length (lead_failures (error_entries calls))
     \<le> length (create_inputs calls) \<and>
   length (create_inputs calls)
     \<le> length (created_contacts calls) + length (lead_failures (error_entries calls)) +
        length (thrown_errors calls)"
proof (induction calls)
  case Nil
  show ?case by (simp add: readers lead_failures_def)
next
  case (Cons x xs)
  have "length (call_contact x) + length (filter is_lead_error (call_error_entry x))
          \<le> length (call_create_input x) \<and>
        length (call_create_input x)
          \<le> length (call_contact x) + length (filter is_lead_error (call_error_entry x)) +
             length (call_thrown x)"
  proof (cases x)
    case (CreateCall contactData answer)
    then show ?thesis
      by (cases answer; cases contactData) (auto split: bool.splits option.splits)
  next
    case (SearchCall ps answer)
    then show ?thesis by (cases answer) auto
  next
    case (EnrichCall batchData answer)
    then show ?thesis by (cases answer) auto
  next
    case (SequenceCall sid ids eid answer)
    then show ?thesis by (cases answer) auto
  qed
  with Cons show ?case by (simp add: readers_Cons lead_failures_def)
qed

lemma sequence_calls_read:
  "enrolled calls = enrolled (sequence_calls calls) \<and>
   step_failures (error_entries calls) = error_entries (sequence_calls calls)"
proof (induction calls)
  case Nil
  show ?case by (simp add: readers step_failures_def)
next
  case (Cons x xs)
  have "(\<not> is_sequence_call x \<longrightarrow>
           call_enrolled x = [] \<and> filter (\<lambda>e. \<not> is_lead_error e) (call_error_entry x) = []) \<and>
        (is_sequence_call x \<longrightarrow>
           filter (\<lambda>e. \<not> is_lead_error e) (call_error_entry x) = call_error_entry x)"
  proof (cases x)
    case (CreateCall contactData answer)
    then show ?thesis
      by (cases answer; cases contactData) (auto split: bool.splits option.splits)
  next
    case (SearchCall ps answer)
    then show ?thesis by (cases answer) auto
  next
    case (EnrichCall batchData answer)
    then show ?thesis by (cases answer) auto
  next
    case (SequenceCall sid ids eid answer)
    then show ?thesis by (cases answer) auto
  qed
  with Cons show ?case by (simp add: readers_Cons readers_Nil step_failures_def)
qed

lemma persons_bounded:
  "\<forall>(batchData, r) \<in> set rs. success r \<longrightarrow> length (persons (data r)) \<le> length batchData \<Longrightarrow>
   length (concat (map (\<lambda>(batchData, r). persons (data r))
     (filter (\<lambda>(batchData, r). success r) rs))) \<le> length (concat (map fst rs))"
  by (induction rs) (auto simp: le_SucI trans_le_add2 add_mono)

lemmas run_simps =
  generateLeads_def generateLeads_try_def enrich_step_def enrich_loop.simps
  add_to_sequence_def slice_def batch_item_def contactData_of_def persons_def
  truthy_def template_str_def initial_results_def scripted_collaborators_def
  lead_named_def succeeded_def failed_def example_config_def new_Error_def
  List.map_filter_simps

lemma run_collapse: "fst run = Inr r \<Longrightarrow> run = (Inr r, fst (snd run), snd (snd run))"
  by (simp add: prod_eq_iff)

text \<open>
  \<^bold>\<open>C1\<close>. Whatever the configuration and whatever the collaborators do, also when one of
  them throws, \<^verbatim>\<open>generateLeads\<close> returns a result and throws nothing. At most one call
  threw, and it is the last call made. The result is the one the call list accounts for:
  its \<^verbatim>\<open>error\<close> is the message of the thrown error (and is absent when no call threw),
  and its counters and \<^verbatim>\<open>errors\<close> are those of the calls that returned before.
\<close>

theorem generateLeads_never_throws:
  "\<exists>r w' calls.
     generateLeads c config w = (Inr r, w', calls) \<and> r = result_of calls \<and>
     wf_error r = (case thrown_errors calls of [] \<Rightarrow> None | e # _ \<Rightarrow> Some (message e)) \<and>
     length (thrown_errors calls) \<le> 1 \<and> thrown_errors (butlast calls) = []"
proof -
  obtain res w' calls where run: "generateLeads c config w = (res, w', calls)"
    by (metis prod_cases3)
  from run obtain thrown results where
    body: "generateLeads_try c config initial_results w = (thrown, results, w', calls)"
    by (rule generateLeads_cases)
  from generateLeads_try_calls(2) [OF body] have "length (thrown_errors calls) \<le> 1"
    by (cases thrown) simp_all
  moreover from generateLeads_result_of [OF run] have res: "res = Inr (result_of calls)" .
  moreover have "wf_error (result_of calls) =
      (case thrown_errors calls of [] \<Rightarrow> None | e # _ \<Rightarrow> Some (message e))"
    by (simp add: result_of_def)
  ultimately show ?thesis
    using generateLeads_try_calls(6) [OF body] run by blast
qed

text \<open>
  The second creation call throws: one contact created, and the message of the error.
\<close>

theorem generateLeads_never_throws_witness:
  "fst run_create_throws =
     Inr \<lparr>searched = 2, enriched = 0, created = 1, addedToSequence = 0, errors = [],
          wf_error = Some ''socket hang up''\<rparr> \<and>
   fst run_create_throws = Inr (result_of (snd (snd run_create_throws)))"
proof -
  have "fst run_create_throws =
     Inr \<lparr>searched = 2, enriched = 0, created = 1, addedToSequence = 0, errors = [],
          wf_error = Some ''socket hang up''\<rparr>"
    by (simp add: run_create_throws_def run_simps)
  moreover have "fst run_create_throws = Inr (result_of (snd (snd run_create_throws)))"
    unfolding run_create_throws_def
    using generateLeads_never_throws
      [of "scripted_collaborators
             (Inr (succeeded [lead_named ''Ada'' ''Lovelace'', lead_named ''Alan'' ''Turing'']))
             (Inr (succeeded ()))"
          example_config
          "([], [Inr (succeeded (Some \<lparr>contact_id = Some ''c1''\<rparr>)),
                 Inl (new_Error ''socket hang up'')])"]
    by auto
  ultimately show ?thesis by simp
qed

text \<open>
  \<^bold>\<open>C5\<close>. In every run, \<open>created\<close> plus the number of per-lead entries of
  \<open>errors\<close> is at most the number of leads to process; it is the number of
  \<^verbatim>\<open>createContact\<close> calls that returned, and these calls are made for the first leads
  to process, in order. Without a thrown error every lead to process is submitted and
  the sum equals their number. \<open>addedToSequence \<le> created\<close> in every run.
  \<open>enriched \<le> searched\<close> when every enrichment call that returned
  \<^verbatim>\<open>success: true\<close> returned at most as many persons as its batch had records.
\<close>

theorem workflow_counters:
  "generateLeads c config w = (Inr r, w', calls) \<Longrightarrow>
     created r + length (lead_failures (errors r)) \<le> length (candidates config calls) \<and>
     create_inputs calls =
       map (contactData_of config)
         (take (length (create_inputs calls)) (candidates config calls)) \<and>
     created r + length (lead_failures (errors r)) \<le> length (create_inputs calls) \<and>
     length (create_inputs calls)
       \<le> created r + length (lead_failures (errors r)) + length (thrown_errors calls) \<and>
     (thrown_errors calls = [] \<longrightarrow>
        created r + length (lead_failures (errors r)) = length (candidates config calls) \<and>
        create_inputs calls = map (contactData_of config) (candidates config calls)) \<and>
     addedToSequence r \<le> created r \<and>
     ((\<forall>(batchData, res) \<in> set (enrich_returns calls).
          success res \<longrightarrow> length (persons (data res)) \<le> length batchData) \<longrightarrow>
        enriched r \<le> searched r)"
proof -
  assume run: "generateLeads c config w = (Inr r, w', calls)"
  from run obtain thrown results where
    body: "generateLeads_try c config initial_results w = (thrown, results, w', calls)"
    by (rule generateLeads_cases)
  note facts = generateLeads_try_calls [OF body]
  from generateLeads_result_of [OF run] have r: "r = result_of calls" by simp
  from create_calls_accounted [of calls]
  have below: "created r + length (lead_failures (errors r)) \<le> length (create_inputs calls)"
    and above: "length (create_inputs calls)
       \<le> created r + length (lead_failures (errors r)) + length (thrown_errors calls)"
    by (simp_all add: r result_of_def)
  from facts(9)
  have prefix: "create_inputs calls =
      map (contactData_of config)
        (take (length (create_inputs calls)) (candidates config calls))"
    by (simp add: candidates_def)
  then have "length (create_inputs calls)
      = length (take (length (create_inputs calls)) (candidates config calls))"
    by (metis length_map)
  then have "length (create_inputs calls) \<le> length (candidates config calls)" by simp
  with below
  have within: "created r + length (lead_failures (errors r)) \<le> length (candidates config calls)"
    by simp
  have quiet: "created r + length (lead_failures (errors r)) = length (candidates config calls) \<and>
      create_inputs calls = map (contactData_of config) (candidates config calls)"
    if no_throw: "thrown_errors calls = []"
  proof -
    from no_throw facts(2) have "thrown = None" by (cases thrown) simp_all
    from facts(3) [OF this]
    have all: "create_inputs calls = map (contactData_of config) (candidates config calls)"
      by (simp add: candidates_def)
    then have "length (create_inputs calls) = length (candidates config calls)"
      by (metis length_map)
    with below above no_throw all show ?thesis by simp
  qed
  from facts(4) have added: "addedToSequence r \<le> created r"
    by (auto simp: r result_of_def)
  have enriched: "enriched r \<le> searched r"
    if "\<forall>(batchData, res) \<in> set (enrich_returns calls).
          success res \<longrightarrow> length (persons (data res)) \<le> length batchData"
  proof -
    from persons_bounded [OF that] facts(5)
    have "length (enriched_persons calls) \<le> length (found_leads calls)"
      by (simp add: enriched_persons_def)
    then show ?thesis by (simp add: r result_of_def)
  qed
  from within prefix below above quiet added enriched show ?thesis by blast
qed

text \<open>
  Two leads, one of them matched, its creation refused.
\<close>

theorem workflow_counters_witness:
  "fst run_one_matched =
     Inr \<lparr>searched = 2, enriched = 1, created = 0, addedToSequence = 0,
          errors = [LeadError ''Ada Lovelace'' (Some ''Email already exists'')],
          wf_error = None\<rparr> \<and>
   thrown_errors (snd (snd run_one_matched)) = [] \<and>
   candidates (example_config\<lparr>enrichData := True\<rparr>) (snd (snd run_one_matched)) =
     [lead_named ''Ada'' ''Lovelace''] \<and>
   length (create_inputs (snd (snd run_one_matched))) = 1 \<and>
   created (projr (fst run_one_matched)) +
     length (lead_failures (errors (projr (fst run_one_matched)))) =
     length (candidates (example_config\<lparr>enrichData := True\<rparr>) (snd (snd run_one_matched))) \<and>
   addedToSequence (projr (fst run_one_matched)) \<le> created (projr (fst run_one_matched)) \<and>
   enriched (projr (fst run_one_matched)) \<le> searched (projr (fst run_one_matched))"
proof -
  let ?r = "\<lparr>searched = 2, enriched = 1, created = 0, addedToSequence = 0,
          errors = [LeadError ''Ada Lovelace'' (Some ''Email already exists'')],
          wf_error = None\<rparr>"
  let ?config = "example_config\<lparr>enrichData := True\<rparr>"
  have r: "fst run_one_matched = Inr ?r"
    by (simp add: run_one_matched_def run_simps)
  have no_throw: "thrown_errors (snd (snd run_one_matched)) = []"
    by (simp add: run_one_matched_def run_simps readers)
  have leads: "candidates ?config (snd (snd run_one_matched)) = [lead_named ''Ada'' ''Lovelace'']"
    by (simp add: run_one_matched_def run_simps readers candidates_def)
  have inputs: "length (create_inputs (snd (snd run_one_matched))) = 1"
    by (simp add: run_one_matched_def run_simps readers)
  have bounded: "\<forall>(batchData, res) \<in> set (enrich_returns (snd (snd run_one_matched))).
      success res \<longrightarrow> length (persons (data res)) \<le> length batchData"
    by (simp add: run_one_matched_def run_simps readers)
  note counters =
    workflow_counters [OF run_collapse [OF r, unfolded run_one_matched_def],
      folded run_one_matched_def]
  from counters no_throw bounded
  have "created ?r + length (lead_failures (errors ?r)) =
          length (candidates ?config (snd (snd run_one_matched)))"
    and "addedToSequence ?r \<le> created ?r" and "enriched ?r \<le> searched ?r"
    by blast+
  with r no_throw inputs leads show ?thesis by simp
qed

text \<open>
  An enrichment call that returns two persons for a batch of one, and a creation call
  that throws: \<open>enriched\<close> exceeds \<open>searched\<close>, and \<open>created\<close> plus the per-lead
  entries is one short of the two leads to process.
\<close>

theorem enriched_exceeds_searched:
  "fst run_over_enriched =
     Inr \<lparr>searched = 1, enriched = 2, created = 1, addedToSequence = 0, errors = [],
          wf_error = Some ''socket hang up''\<rparr> \<and>
   candidates (example_config\<lparr>enrichData := True\<rparr>) (snd (snd run_over_enriched)) =
     [lead_named ''Ada'' ''Lovelace'', lead_named ''Alan'' ''Turing''] \<and>
   length (create_inputs (snd (snd run_over_enriched))) = 2 \<and>
   \<not> enriched (projr (fst run_over_enriched)) \<le> searched (projr (fst run_over_enriched)) \<and>
   created (projr (fst run_over_enriched)) +
     length (lead_failures (errors (projr (fst run_over_enriched))))
     \<noteq> length (candidates (example_config\<lparr>enrichData := True\<rparr>)
         (snd (snd run_over_enriched))) \<and>
   created (projr (fst run_over_enriched)) +
     length (lead_failures (errors (projr (fst run_over_enriched))))
     \<noteq> length (create_inputs (snd (snd run_over_enriched)))"
  by (simp add: run_over_enriched_def run_simps readers lead_failures_def candidates_def)

text \<open>
  Three leads and a first creation call that throws: the loop ends there, so that the sum
  is 0 against three leads to process.
\<close>

lemma first_create_throws:
  "fst run_first_create_throws =
     Inr \<lparr>searched = 3, enriched = 0, created = 0, addedToSequence = 0, errors = [],
          wf_error = Some ''socket hang up''\<rparr> \<and>
   length (create_inputs (snd (snd run_first_create_throws))) = 1 \<and>
   length (candidates example_config (snd (snd run_first_create_throws))) = 3"
  by (simp add: run_first_create_throws_def run_simps readers candidates_def)

text \<open>
  \<^bold>\<open>C7\<close>. When the enrollment call is made and returns \<^verbatim>\<open>success: false\<close>, then at
  least one contact was created, \<open>created\<close> is the number of successful creations, the
  call was given the ids of all of them, \<open>addedToSequence\<close> is 0, and \<open>errors\<close> holds
  exactly one entry of the enrollment step, \<^verbatim>\<open>{step: 'sequence', error}\<close>.
\<close>

theorem sequence_failure_recorded:
  "generateLeads c config w = (Inr r, w', calls) \<Longrightarrow>
   SequenceCall sid contactIds eid (Inr sequenceResult) \<in> set calls \<Longrightarrow>
   \<not> success sequenceResult \<Longrightarrow>
     created r = length (created_contacts calls) \<and> 1 \<le> created r \<and>
     contactIds = map contact_id (created_contacts calls) \<and>
     addedToSequence r = 0 \<and>
     step_failures (errors r) = [StepError ''sequence'' (error sequenceResult)]"
proof -
  let ?call = "SequenceCall sid contactIds eid (Inr sequenceResult)"
  assume run: "generateLeads c config w = (Inr r, w', calls)"
    and mem: "?call \<in> set calls" and failed: "\<not> success sequenceResult"
  from run obtain thrown results where
    body: "generateLeads_try c config initial_results w = (thrown, results, w', calls)"
    by (rule generateLeads_cases)
  from generateLeads_result_of [OF run] have r: "r = result_of calls" by simp
  from mem have "?call \<in> set (sequence_calls calls)" by (simp add: sequence_calls_def)
  with generateLeads_try_calls(7) [OF body]
  have only: "sequence_calls calls = [?call]"
    and ids: "contactIds = map contact_id (created_contacts calls)"
    and some: "created_contacts calls \<noteq> []"
    by auto
  from sequence_calls_read [of calls] failed
  have "enrolled calls = []"
    and "step_failures (error_entries calls) = [StepError ''sequence'' (error sequenceResult)]"
    by (simp_all add: only readers_Cons readers_Nil)
  with ids some show ?thesis
    by (cases "created_contacts calls") (simp_all add: r result_of_def)
qed

text \<open>
  One contact created, one refused, and the enrollment fails.
\<close>

theorem sequence_failure_recorded_witness:
  "fst run_sequence_fails =
     Inr \<lparr>searched = 2, enriched = 0, created = 1, addedToSequence = 0,
          errors = [LeadError ''Alan Turing'' (Some ''Email already exists''),
                    StepError ''sequence'' (Some ''Sequence is archived'')],
          wf_error = None\<rparr> \<and>
   SequenceCall ''seq1'' [Some ''c1''] ''acc1'' (Inr (failed () ''Sequence is archived''))
     \<in> set (snd (snd run_sequence_fails)) \<and>
   \<not> success (failed () ''Sequence is archived'') \<and>
   step_failures [LeadError ''Alan Turing'' (Some ''Email already exists''),
                  StepError ''sequence'' (Some ''Sequence is archived'')] =
     [StepError ''sequence'' (error (failed () ''Sequence is archived''))]"
proof -
  let ?r = "\<lparr>searched = 2, enriched = 0, created = 1, addedToSequence = 0,
          errors = [LeadError ''Alan Turing'' (Some ''Email already exists''),
                    StepError ''sequence'' (Some ''Sequence is archived'')],
          wf_error = None\<rparr>"
  have r: "fst run_sequence_fails = Inr ?r"
    by (simp add: run_sequence_fails_def run_simps)
  have mem: "SequenceCall ''seq1'' [Some ''c1''] ''acc1'' (Inr (failed () ''Sequence is archived''))
     \<in> set (snd (snd run_sequence_fails))"
    by (simp add: run_sequence_fails_def run_simps)
  have failed: "\<not> success (failed () ''Sequence is archived'')"
    by (simp add: failed_def)
  from sequence_failure_recorded
    [OF run_collapse [OF r, unfolded run_sequence_fails_def]
        mem [unfolded run_sequence_fails_def] failed]
    r mem failed
  show ?thesis by simp
qed

text \<open>
  \<^bold>\<open>C10\<close>. With enrichment on, \<open>errors\<close> holds the entries of the creation calls
  and of the enrollment call only, so a chunk whose enrichment call returned
  \<^verbatim>\<open>success: false\<close> leaves no entry; \<open>enriched\<close> counts the persons of the chunks
  whose call returned \<^verbatim>\<open>success: true\<close> (and stays 0 when an enrichment call throws);
  and the leads submitted to \<^verbatim>\<open>createContact\<close> are these persons, in order, up to the
  one whose call throws. Without a thrown error the enrichment calls get the batches of
  the leads found, all these persons are submitted, and every entry of \<open>errors\<close> is a
  failed creation or the failed enrollment.
\<close>

theorem failed_chunk_dropped:
  "generateLeads c config w = (Inr r, w', calls) \<Longrightarrow> enrichData config \<Longrightarrow>
     errors r = error_entries calls \<and>
     length (errors r) + created r
       \<le> length (create_inputs calls) + length (step_failures (errors r)) \<and>
     enriched r =
       (if list_ex is_enrich_fault calls then 0 else length (enriched_persons calls)) \<and>
     create_inputs calls =
       map (contactData_of config)
         (take (length (create_inputs calls)) (enriched_persons calls)) \<and>
     (thrown_errors calls = [] \<longrightarrow>
        map fst (enrich_returns calls) =
          map (map batch_item) (batches (found_leads calls) 0) \<and>
        enriched r = length (enriched_persons calls) \<and>
        create_inputs calls = map (contactData_of config) (enriched_persons calls) \<and>
        length (errors r) + created r =
          length (create_inputs calls) + length (step_failures (errors r)))"
proof -
  assume run: "generateLeads c config w = (Inr r, w', calls)"
    and enrich: "enrichData config"
  from run obtain thrown results where
    body: "generateLeads_try c config initial_results w = (thrown, results, w', calls)"
    by (rule generateLeads_cases)
  note facts = generateLeads_try_calls [OF body]
  from generateLeads_result_of [OF run] have r: "r = result_of calls" by simp
  have split: "length (errors r) =
      length (lead_failures (errors r)) + length (step_failures (errors r))"
    by (simp add: lead_failures_def step_failures_def sum_length_filter_compl)
  from create_calls_accounted [of calls]
  have below: "created r + length (lead_failures (errors r)) \<le> length (create_inputs calls)"
    and above: "length (create_inputs calls)
      \<le> created r + length (lead_failures (errors r)) + length (thrown_errors calls)"
    by (simp_all add: r result_of_def)
  from facts(9) enrich
  have inputs: "create_inputs calls =
      map (contactData_of config)
        (take (length (create_inputs calls)) (enriched_persons calls))"
    by simp
  have general: "errors r = error_entries calls \<and>
     length (errors r) + created r
       \<le> length (create_inputs calls) + length (step_failures (errors r)) \<and>
     enriched r =
       (if list_ex is_enrich_fault calls then 0 else length (enriched_persons calls))"
    using split below by (simp add: r result_of_def)
  have quiet: "map fst (enrich_returns calls) =
          map (map batch_item) (batches (found_leads calls) 0) \<and>
        enriched r = length (enriched_persons calls) \<and>
        create_inputs calls = map (contactData_of config) (enriched_persons calls) \<and>
        length (errors r) + created r =
          length (create_inputs calls) + length (step_failures (errors r))"
    if no_throw: "thrown_errors calls = []"
  proof -
    from no_throw facts(2) have none: "thrown = None" by (cases thrown) simp_all
    have fault: "\<not> list_ex is_enrich_fault calls"
    proof
      assume "list_ex is_enrich_fault calls"
      then obtain x where "x \<in> set calls" "is_enrich_fault x" by (auto simp: list_ex_iff)
      then have "call_thrown x \<noteq> []" "x \<in> set calls"
        by (cases x rule: is_enrich_fault.cases; simp)+
      with no_throw show False by (auto simp: thrown_errors_def)
    qed
    from split below above no_throw
    have "length (errors r) + created r =
        length (create_inputs calls) + length (step_failures (errors r))"
      by simp
    with facts(3) [OF none] facts(8) [OF none enrich] enrich fault show ?thesis
      by (simp add: r result_of_def)
  qed
  from general inputs quiet show ?thesis by blast
qed

text \<open>
  The first chunk of ten fails and the second chunk matches its one lead.
\<close>

theorem failed_chunk_dropped_witness:
  "fst run_chunk_fails =
     Inr \<lparr>searched = 11, enriched = 1, created = 1, addedToSequence = 0, errors = [],
          wf_error = None\<rparr> \<and>
   enrichData (example_config\<lparr>enrichData := True\<rparr>) \<and>
   thrown_errors (snd (snd run_chunk_fails)) = [] \<and>
   map (success \<circ> snd) (enrich_returns (snd (snd run_chunk_fails))) = [False, True] \<and>
   enriched_persons (snd (snd run_chunk_fails)) = [lead_named ''Alan'' ''Turing''] \<and>
   create_inputs (snd (snd run_chunk_fails)) =
     map (contactData_of (example_config\<lparr>enrichData := True\<rparr>)) [lead_named ''Alan'' ''Turing'']"
proof -
  let ?r = "\<lparr>searched = 11, enriched = 1, created = 1, addedToSequence = 0, errors = [],
          wf_error = None\<rparr>"
  have r: "fst run_chunk_fails = Inr ?r"
    by (simp add: run_chunk_fails_def run_simps)
  have enrich: "enrichData (example_config\<lparr>enrichData := True\<rparr>)" by simp
  have no_throw: "thrown_errors (snd (snd run_chunk_fails)) = []"
    by (simp add: run_chunk_fails_def run_simps readers)
  have chunks: "map (success \<circ> snd) (enrich_returns (snd (snd run_chunk_fails))) = [False, True]"
    by (simp add: run_chunk_fails_def run_simps readers)
  have persons: "enriched_persons (snd (snd run_chunk_fails)) = [lead_named ''Alan'' ''Turing'']"
    by (simp add: run_chunk_fails_def run_simps readers)
  have inputs: "create_inputs (snd (snd run_chunk_fails)) =
      map (contactData_of (example_config\<lparr>enrichData := True\<rparr>))
        (enriched_persons (snd (snd run_chunk_fails)))"
    using failed_chunk_dropped
      [OF run_collapse [OF r, unfolded run_chunk_fails_def] enrich]
      no_throw
    unfolding run_chunk_fails_def by blast
  show ?thesis
    by (intro conjI r enrich no_throw chunks persons inputs [unfolded persons])
qed

section \<open>The cap of the bulk enrichment\<close>

text \<open>Up to ten records, the client is called: the first event is its rate limiting.\<close>

lemma bulk_within_cap_calls_client:
  "length peopleData \<le> 10 \<Longrightarrow>
     \<exists>res apiClient' w' evs.
       enrichPeopleBulk p apiClient peopleData revealPersonalEmails revealPhoneNumber w =
         (res, apiClient', w', Acquire # evs)"
  by (auto simp: enrichPeopleBulk_def enrichPeopleBulk_try_def APIClient_post_def
      APIClient_request_def Let_def split: prod.splits sum.splits option.splits)

text \<open>
  \<^bold>\<open>C8\<close>. For more than ten records, \<^verbatim>\<open>enrichPeopleBulk\<close> throws its error inside
  the \<^verbatim>\<open>try\<close> block before the client is called: no event, the client and the world
  unchanged; and it returns \<^verbatim>\<open>{success: false, error, data: []}\<close>.
\<close>

theorem bulk_cap_checked_locally:
  "10 < length peopleData \<Longrightarrow>
     enrichPeopleBulk_try p apiClient peopleData revealPersonalEmails revealPhoneNumber w =
       (Inl (Some (new_Error ''Bulk enrichment supports maximum 10 people per request'')),
        apiClient, w, []) \<and>
     enrichPeopleBulk p apiClient peopleData revealPersonalEmails revealPhoneNumber w =
       (Inr \<lparr>success = False, data = [],
             error = Some ''Bulk enrichment supports maximum 10 people per request''\<rparr>,
        apiClient, w, [])"
  by (simp add: enrichPeopleBulk_def enrichPeopleBulk_try_def new_Error_def)

text \<open>
  Eleven records.
\<close>

theorem bulk_cap_checked_locally_witness:
  "10 < length (replicate 11 (PersonDetails None None None None None)) \<and>
   enrichPeopleBulk scripted_platform example_client
     (replicate 11 (PersonDetails None None None None None)) False False
     (0, [Inr \<lparr>matches = None\<rparr>]) =
     (Inr \<lparr>success = False, data = [],
           error = Some ''Bulk enrichment supports maximum 10 people per request''\<rparr>,
      example_client, (0, [Inr \<lparr>matches = None\<rparr>]), [])"
proof -
  have "10 < length (replicate 11 (PersonDetails None None None None None))" by simp
  from this bulk_cap_checked_locally
    [OF this, of scripted_platform example_client False False "(0, [Inr \<lparr>matches = None\<rparr>])"]
  show ?thesis by simp
qed

end
